theory Spec2Isabelle
  imports Main "HOL-Library.Word"
begin

section \<open>JavaScript strings\<close>

text \<open>
  A JavaScript string is a sequence of UTF-16 code units, and \<^verbatim>\<open>.length\<close>,
  \<^verbatim>\<open>substring\<close>, \<^verbatim>\<open>split\<close> and \<^verbatim>\<open>replace\<close> all count and cut in
  code units. The model keeps that: a string is a list of 16-bit words. Whenever the
  specification says "bytes" for a length, the program measures code units.
\<close>

type_synonym code_unit = "16 word"
type_synonym jsstring = "code_unit list"

definition js :: "string \<Rightarrow> jsstring" where
  \<comment> \<open>a string literal of the source\<close>
  "js s = map of_char s"

definition canonicalize :: "code_unit \<Rightarrow> code_unit" where
  \<comment> \<open>The case folding of a regular expression with the \<^verbatim>\<open>i\<close> flag (and no
      \<^verbatim>\<open>u\<close> flag), as far as it can be seen by a pattern of ASCII characters:
      \<^verbatim>\<open>a\<close>..\<^verbatim>\<open>z\<close> go to upper case, and no code unit beyond ASCII is ever
      folded onto an ASCII one.\<close>
  "canonicalize c = (if 97 \<le> c \<and> c \<le> 122 then c - 32 else c)"

fun match_here :: "jsstring \<Rightarrow> jsstring \<Rightarrow> bool" where
  \<comment> \<open>the literal pattern matches, ignoring case, at the start of the text\<close>
  "match_here [] s = True"
| "match_here (p # ps) [] = False"
| "match_here (p # ps) (c # cs) = (canonicalize p = canonicalize c \<and> match_here ps cs)"

fun replace_js :: "jsstring \<Rightarrow> jsstring \<Rightarrow> jsstring" where
  \<comment> \<open>\<^verbatim>\<open>s.replace(/pat/i, '')\<close> for a literal pattern: the regular expression has
      no \<^verbatim>\<open>g\<close> flag and no anchor, so the leftmost match, wherever it is, is removed
      and nothing else\<close>
  "replace_js pat [] = []"
| "replace_js pat (c # cs) =
     (if match_here pat (c # cs) then drop (length pat) (c # cs)
      else c # replace_js pat cs)"

fun split_js :: "code_unit \<Rightarrow> jsstring \<Rightarrow> jsstring list" where
  \<comment> \<open>\<^verbatim>\<open>s.split(sep)\<close> for a one-character separator; the empty string gives
      one empty piece\<close>
  "split_js sep [] = [[]]"
| "split_js sep (c # cs) =
     (if c = sep then [] # split_js sep cs
      else (case split_js sep cs of
              [] \<Rightarrow> [[c]]
            | piece # pieces \<Rightarrow> (c # piece) # pieces))"

fun join_js :: "jsstring \<Rightarrow> jsstring list \<Rightarrow> jsstring" where
  \<comment> \<open>\<^verbatim>\<open>pieces.join(sep)\<close>\<close>
  "join_js sep [] = []"
| "join_js sep [x] = x"
| "join_js sep (x # y # ys) = x @ sep @ join_js sep (y # ys)"

definition dot :: code_unit where
  "dot = 46"

definition element :: "jsstring list \<Rightarrow> nat \<Rightarrow> jsstring" where
  \<comment> \<open>An element bound by array destructuring, as a template literal prints it: a
      position past the end of the array is \<^verbatim>\<open>undefined\<close>.\<close>
  "element parts i = (if i < length parts then parts ! i else js ''undefined'')"

fun String_nat :: "nat \<Rightarrow> jsstring" where
  \<comment> \<open>how a template literal prints a non-negative integer counter: its decimal digits\<close>
  "String_nat n =
     (if n < 10 then [of_nat (48 + n)]
      else String_nat (n div 10) @ [of_nat (48 + n mod 10)])"

declare String_nat.simps [simp del]

text \<open>
  What the language prescribes for printing a non-negative integer below \<open>10 ^ 21\<close>,
  stated on its own, to compare \<^const>\<open>String_nat\<close> with: the text is not empty, it
  consists of the digits \<^verbatim>\<open>0\<close> to \<^verbatim>\<open>9\<close>, it has no leading zero unless it
  is \<^verbatim>\<open>0\<close> itself, and read in base ten, most significant digit first, it is the
  number.
\<close>

definition decimal_value :: "jsstring \<Rightarrow> nat" where
  "decimal_value ds = foldl (\<lambda>v c. 10 * v + (unat c - 48)) 0 ds"

definition decimal_numeral :: "jsstring \<Rightarrow> nat \<Rightarrow> bool" where
  "decimal_numeral ds n =
     (ds \<noteq> [] \<and> list_all (\<lambda>c. 48 \<le> c \<and> c \<le> 57) ds
      \<and> (if hd ds = 48 then length ds = 1 else True)
      \<and> decimal_value ds = n)"


section \<open>Configuration, data and the process-wide state\<close>

record config =
  CACHE_TTL :: int
  MAX_RESPONSE_LENGTH :: nat
  RATE_LIMIT_WINDOW :: int
  RATE_LIMIT_MAX :: nat

definition CONFIG :: config where
  "CONFIG = \<lparr> CACHE_TTL = 3600, MAX_RESPONSE_LENGTH = 255,
              RATE_LIMIT_WINDOW = 60000, RATE_LIMIT_MAX = 100 \<rparr>"

datatype jserror = JsError (name: jsstring) (message: jsstring)

record Answer =
  answer :: jsstring
  cached :: bool
  handler :: jsstring

text \<open>
  The counters start at 0 and only ever go up by one, so they are natural numbers here
  (a JavaScript number counts exactly up to \<open>2 ^ 53\<close>).
\<close>

record Stats =
  totalQueries :: nat
  cacheHits :: nat
  cacheMisses :: nat
  errors :: nat
  byCategory :: "jsstring \<rightharpoonup> nat"

record CacheEntry =
  stored :: Answer
  insertedAt :: int
  ttl :: int

record RateLimitRecord =
  windowStart :: int
  count :: nat

text \<open>
  The three module-level objects \<^verbatim>\<open>stats\<close>, \<^verbatim>\<open>cache\<close> and
  \<^verbatim>\<open>rateLimitMap\<close> are the state every function of the module can reach.
\<close>

record state =
  stats :: Stats
  cache :: "jsstring \<rightharpoonup> CacheEntry"
  rateLimitMap :: "jsstring \<rightharpoonup> RateLimitRecord"

text \<open>
  The two external collaborators are parameters. The evaluator either throws an error or
  returns a value, given here as the text a template literal prints for it. The backend
  either throws or returns a result whose \<^verbatim>\<open>text\<close> property may be missing.
\<close>

type_synonym evaluator = "jsstring \<Rightarrow> jserror + jsstring"
type_synonym backend = "jsstring \<Rightarrow> jserror + jsstring option"
type_synonym 'a outcome = "(jserror + 'a) \<times> state"


section \<open>The generative gateway\<close>

definition count_error :: "state \<Rightarrow> state" where
  \<comment> \<open>\<^verbatim>\<open>stats.errors++\<close>\<close>
  "count_error s = s\<lparr>stats := (stats s)\<lparr>errors := errors (stats s) + 1\<rparr>\<rparr>"

definition count_category :: "jsstring \<Rightarrow> state \<Rightarrow> state" where
  \<comment> \<open>\<^verbatim>\<open>stats.byCategory[category] = (stats.byCategory[category] || 0) + 1\<close>\<close>
  "count_category category s =
     s\<lparr>stats := (stats s)\<lparr>byCategory := (byCategory (stats s))
        (category \<mapsto> (case byCategory (stats s) category of None \<Rightarrow> 0 | Some n \<Rightarrow> n) + 1)\<rparr>\<rparr>"

definition text_or_default :: "jsstring option \<Rightarrow> jsstring" where
  \<comment> \<open>\<^verbatim>\<open>result.text || 'No response generated.'\<close>: a missing text and the empty
      string are both falsy\<close>
  "text_or_default text =
     (case text of
        None \<Rightarrow> js ''No response generated.''
      | Some t \<Rightarrow> if t = [] then js ''No response generated.'' else t)"

definition const_assignment :: jserror where
  \<comment> \<open>what the engine throws when a \<^verbatim>\<open>const\<close> binding is assigned to\<close>
  "const_assignment = JsError (js ''TypeError'') (js ''Assignment to constant variable.'')"

definition callAI :: "backend \<Rightarrow> jsstring \<Rightarrow> jsstring \<Rightarrow> state \<Rightarrow> Answer outcome" where
  \<comment> \<open>\<^verbatim>\<open>answer\<close> is declared with \<^verbatim>\<open>const\<close>, so the assignment in the branch for
      a long text throws inside the \<^verbatim>\<open>try\<close>; the \<^verbatim>\<open>catch\<close> block counts the
      error and throws it again. The line that counts the category comes after that
      branch and is not reached then. What the \<^verbatim>\<open>catch\<close> block writes to the
      console is left out.\<close>
  "callAI generateContent prompt category s =
     (case generateContent prompt of
        Inl error \<Rightarrow> (Inl error, count_error s)
      | Inr text \<Rightarrow>
          (let answer0 = text_or_default text
           in if length answer0 > MAX_RESPONSE_LENGTH CONFIG
              then (Inl const_assignment, count_error s)
              else (Inr \<lparr> answer = answer0, cached = False, handler = js ''ai'' \<rparr>,
                    count_category category s)))"

section \<open>The handler registry\<close>

text \<open>
  Every handler starts from the same expression on the query it is given:
  \<^verbatim>\<open>query.replace(/cmd\./i, '').split('.')\<close>, most of them followed by
  \<^verbatim>\<open>.join(' ')\<close>.
\<close>

definition stripped :: "string \<Rightarrow> jsstring \<Rightarrow> jsstring list" where
  "stripped cmd query = split_js dot (replace_js (js cmd @ [dot]) query)"

definition spaced :: "string \<Rightarrow> jsstring \<Rightarrow> jsstring" where
  "spaced cmd query = join_js (js '' '') (stripped cmd query)"

type_synonym handler_fn = "evaluator \<Rightarrow> backend \<Rightarrow> jsstring \<Rightarrow> state \<Rightarrow> Answer outcome"

subsection \<open>Local handlers\<close>

definition calc_try :: "evaluator \<Rightarrow> jsstring \<Rightarrow> jserror + Answer" where
  \<comment> \<open>the \<^verbatim>\<open>try\<close> block of \<^verbatim>\<open>handlers.calc\<close>\<close>
  "calc_try evaluate query =
     (let expression = spaced ''calc'' query
      in case evaluate expression of
           Inl error \<Rightarrow> Inl error
         | Inr result \<Rightarrow>
             Inr \<lparr> answer = expression @ js '' = '' @ result, cached = False,
                   handler = js ''calc'' \<rparr>)"

definition handlers_calc :: handler_fn where
  "handlers_calc evaluate generateContent query s =
     (case calc_try evaluate query of
        Inr a \<Rightarrow> (Inr a, s)
      | Inl error \<Rightarrow>
          (Inr \<lparr> answer = js ''Math error: '' @ message error, cached = False,
                 handler = js ''calc'' \<rparr>, s))"

definition unit_try :: "evaluator \<Rightarrow> jsstring \<Rightarrow> jserror + Answer" where
  \<comment> \<open>the \<^verbatim>\<open>try\<close> block of \<^verbatim>\<open>handlers.unit\<close>\<close>
  "unit_try evaluate query =
     (let input = spaced ''unit'' query
      in case evaluate input of
           Inl error \<Rightarrow> Inl error
         | Inr result \<Rightarrow>
             Inr \<lparr> answer = input @ js '' = '' @ result, cached = False,
                   handler = js ''unit'' \<rparr>)"

definition handlers_unit :: handler_fn where
  "handlers_unit evaluate generateContent query s =
     (case unit_try evaluate query of
        Inr a \<Rightarrow> (Inr a, s)
      | Inl error \<Rightarrow>
          (Inr \<lparr> answer = js ''Conversion error: '' @ message error, cached = False,
                 handler = js ''unit'' \<rparr>, s))"

definition handlers_stats :: handler_fn where
  "handlers_stats evaluate generateContent query s =
     (let summary =
            js ''Queries:'' @ String_nat (totalQueries (stats s))
            @ js '' Cache:'' @ String_nat (cacheHits (stats s))
            @ js ''/'' @ String_nat (totalQueries (stats s))
            @ js '' Errors:'' @ String_nat (errors (stats s))
      in (Inr \<lparr> answer = summary, cached = False, handler = js ''stats'' \<rparr>, s))"

definition handlers_help :: handler_fn where
  "handlers_help evaluate generateContent query s =
     (let commands = js (''Commands: calc translate code timezone convert spell onthisday ''
                         @ ''unit acronym tip weather fact define stats help'')
      in (Inr \<lparr> answer = commands, cached = False, handler = js ''help'' \<rparr>, s))"

subsection \<open>Handlers that ask the backend\<close>

definition handlers_translate :: handler_fn where
  \<open>handlers_translate evaluate generateContent query s =
     (let parts = stripped ''translate'' query;
          from = element parts 0;
          to = element parts 1;
          words = drop 2 parts;
          text = join_js (js '' '') words;
          prompt = js ''Translate "'' @ text @ js ''" from '' @ from @ js '' to '' @ to
                   @ js ''. Reply with ONLY the translation, no explanations.''
      in callAI generateContent prompt (js ''translation'') s)\<close>

definition handlers_code :: handler_fn where
  \<open>handlers_code evaluate generateContent query s =
     (let request = spaced ''code'' query;
          prompt = js ''Provide a one-line code snippet for: '' @ request
                   @ js ''. Format as: language: code''
      in callAI generateContent prompt (js ''code'') s)\<close>

definition handlers_timezone :: handler_fn where
  \<open>handlers_timezone evaluate generateContent query s =
     (let location = spaced ''timezone'' query;
          prompt = js ''What is the current timezone for '' @ location
                   @ js (''? Reply with timezone name and UTC offset only ''
                         @ ''(e.g., "EST UTC-5").'')
      in callAI generateContent prompt (js ''timezone'') s)\<close>

definition handlers_convert :: handler_fn where
  \<open>handlers_convert evaluate generateContent query s =
     (let parts = stripped ''convert'' query;
          amount = element parts 0;
          from = element parts 1;
          to = element parts 2;
          prompt = js ''Convert '' @ amount @ js '' '' @ from @ js '' to '' @ to
                   @ js (''. Reply with just the converted amount and currency ''
                         @ ''(e.g., "100 USD = 85 EUR").'')
      in callAI generateContent prompt (js ''conversion'') s)\<close>

definition handlers_spell :: handler_fn where
  \<open>handlers_spell evaluate generateContent query s =
     (let word = spaced ''spell'' query;
          prompt = js ''Is "'' @ word
                   @ js (''" spelled correctly? If not, provide the correct spelling. ''
                         @ ''Reply in format: "Correct" or "Incorrect: [correct spelling]".'')
      in callAI generateContent prompt (js ''spell'') s)\<close>

definition handlers_onthisday :: handler_fn where
  \<open>handlers_onthisday evaluate generateContent query s =
     (let date = spaced ''onthisday'' query;
          prompt = js ''What significant event happened on '' @ date
                   @ js ''? Reply with one brief historical fact.''
      in callAI generateContent prompt (js ''history'') s)\<close>

definition handlers_acronym :: handler_fn where
  \<open>handlers_acronym evaluate generateContent query s =
     (let abbr = spaced ''acronym'' query;
          prompt = js ''What does the acronym "'' @ abbr
                   @ js ''" stand for? Provide the most common meaning in one sentence.''
      in callAI generateContent prompt (js ''acronym'') s)\<close>

definition handlers_tip :: handler_fn where
  \<open>handlers_tip evaluate generateContent query s =
     (let topic = spaced ''tip'' query;
          prompt = js ''Give one practical tip about '' @ topic @ js '' in one sentence.''
      in callAI generateContent prompt (js ''tip'') s)\<close>

definition handlers_weather :: handler_fn where
  \<open>handlers_weather evaluate generateContent query s =
     (let location = spaced ''weather'' query;
          prompt = js ''Describe the typical weather in '' @ location
                   @ js '' in one sentence.''
      in callAI generateContent prompt (js ''weather'') s)\<close>

definition handlers_fact :: handler_fn where
  \<open>handlers_fact evaluate generateContent query s =
     (let topic = spaced ''fact'' query;
          prompt = js ''Share one interesting fact about '' @ topic
                   @ js '' in one sentence.''
      in callAI generateContent prompt (js ''fact'') s)\<close>

definition handlers_define :: handler_fn where
  \<open>handlers_define evaluate generateContent query s =
     (let word = spaced ''define'' query;
          prompt = js ''Define "'' @ word @ js ''" in one concise sentence.''
      in callAI generateContent prompt (js ''definition'') s)\<close>

definition handlers_ip :: handler_fn where
  \<comment> \<open>the \<^verbatim>\<open>ip\<close> handler of the shorter listing of the module\<close>
  \<open>handlers_ip evaluate generateContent query s =
     (let location = spaced ''ip'' query;
          prompt = js ''What is a common public DNS server IP for '' @ location
                   @ js ''? Reply with ONLY the IP address.''
      in callAI generateContent prompt (js ''ip'') s)\<close>

definition handlers :: "jsstring \<rightharpoonup> handler_fn" where
  \<comment> \<open>the object literal \<^verbatim>\<open>handlers\<close>, property name to function\<close>
  "handlers = map_of
     [(js ''calc'', handlers_calc),
      (js ''translate'', handlers_translate),
      (js ''code'', handlers_code),
      (js ''timezone'', handlers_timezone),
      (js ''convert'', handlers_convert),
      (js ''spell'', handlers_spell),
      (js ''onthisday'', handlers_onthisday),
      (js ''unit'', handlers_unit),
      (js ''acronym'', handlers_acronym),
      (js ''tip'', handlers_tip),
      (js ''weather'', handlers_weather),
      (js ''fact'', handlers_fact),
      (js ''define'', handlers_define),
      (js ''stats'', handlers_stats),
      (js ''help'', handlers_help)]"

section \<open>Rate limiter, response cache and dispatcher\<close>

text \<open>
  The listing of the module stops after \<^verbatim>\<open>callAI\<close>: it declares
  \<^verbatim>\<open>cache\<close>, \<^verbatim>\<open>rateLimitMap\<close> and the constants of \<^verbatim>\<open>CONFIG\<close>, but the
  code that uses them is not part of it, and neither is the code that receives a query
  name and calls a handler. The definitions of this section follow the specification
  (sections 4.1, 4.4, 4.5 and 4.7) instead; the handlers they call are the ones above.
  Times are in milliseconds.
\<close>

text \<open>Modelled from the spec: the two results of the Rate Limiter's check.\<close>

datatype decision = Allow | Reject

definition check :: "int \<Rightarrow> jsstring \<Rightarrow> (jsstring \<rightharpoonup> RateLimitRecord)
                       \<Rightarrow> decision \<times> (jsstring \<rightharpoonup> RateLimitRecord)" where
  \<comment> \<open>Modelled from the spec: the Rate Limiter's \<^verbatim>\<open>check(clientKey)\<close>, which is
      missing from the listing. A first request creates the record with count 1; a
      request inside the window increments the count and is rejected once the count
      exceeds the maximum; a request at or after the end of the window starts a new
      window with count 1.\<close>
  "check now clientKey m =
     (case m clientKey of
        None \<Rightarrow> (Allow, m(clientKey \<mapsto> \<lparr> windowStart = now, count = 1 \<rparr>))
      | Some r \<Rightarrow>
          if now - windowStart r \<ge> RATE_LIMIT_WINDOW CONFIG
          then (Allow, m(clientKey \<mapsto> \<lparr> windowStart = now, count = 1 \<rparr>))
          else if count r + 1 > RATE_LIMIT_MAX CONFIG
          then (Reject, m(clientKey \<mapsto> r\<lparr>count := count r + 1\<rparr>))
          else (Allow, m(clientKey \<mapsto> r\<lparr>count := count r + 1\<rparr>)))"

definition cache_get :: "int \<Rightarrow> jsstring \<Rightarrow> state \<Rightarrow> Answer option" where
  \<comment> \<open>Modelled from the spec: the Response Cache's \<^verbatim>\<open>get(key)\<close>, missing from the
      listing. An entry inserted at time T with a time to live of TTL seconds is a miss
      from T + TTL on; it stays in the map until it is replaced.\<close>
  "cache_get now key s =
     (case cache s key of
        None \<Rightarrow> None
      | Some e \<Rightarrow> if now \<ge> insertedAt e + 1000 * ttl e then None else Some (stored e))"

definition cache_set :: "int \<Rightarrow> jsstring \<Rightarrow> Answer \<Rightarrow> state \<Rightarrow> state" where
  \<comment> \<open>Modelled from the spec: the Response Cache's \<^verbatim>\<open>set(key, Answer, ttl)\<close>,
      missing from the listing, with the default time to live.\<close>
  "cache_set now key a s =
     s\<lparr>cache := (cache s)(key \<mapsto> \<lparr> stored = a, insertedAt = now, ttl = CACHE_TTL CONFIG \<rparr>)\<rparr>"

text \<open>
  Modelled from the spec: the Query of the data model, which the Command Parser yields.
\<close>

record Query =
  rawName :: jsstring
  command :: jsstring
  args :: "jsstring list"

definition to_lower :: "code_unit \<Rightarrow> code_unit" where
  \<comment> \<open>Modelled from the spec: the folding of letter case by which a command is
      recognised whatever its casing; \<^verbatim>\<open>A\<close>..\<^verbatim>\<open>Z\<close> go to lower case.\<close>
  "to_lower c = (if 65 \<le> c \<and> c \<le> 90 then c + 32 else c)"



text \<open>
  Modelled from the spec: the length of a text in bytes. The listing has no code that
  measures bytes (\<^verbatim>\<open>callAI\<close> compares the number of code units), so the bytes
  are those of the text written in UTF-8, as a DNS TXT string carries it: one byte for a
  code unit below \<open>0x80\<close>, two below \<open>0x800\<close>, three for any other, and four for
  a high surrogate followed by a low one, which together are one character. A surrogate
  without its partner counts as the three bytes of the replacement character.
\<close>

definition high_surrogate :: "code_unit \<Rightarrow> bool" where
  "high_surrogate c = (0xD800 \<le> c \<and> c \<le> 0xDBFF)"

definition low_surrogate :: "code_unit \<Rightarrow> bool" where
  "low_surrogate c = (0xDC00 \<le> c \<and> c \<le> 0xDFFF)"

definition unit_bytes :: "code_unit \<Rightarrow> nat" where
  "unit_bytes c = (if c < 0x80 then 1 else if c < 0x800 then 2 else 3)"

fun utf8_length :: "jsstring \<Rightarrow> nat" where
  "utf8_length [] = 0"
| "utf8_length [c] = unit_bytes c"
| "utf8_length (c # d # cs) =
     (if high_surrogate c \<and> low_surrogate d then 4 + utf8_length cs
      else unit_bytes c + utf8_length (d # cs))"

fun take_bytes :: "nat \<Rightarrow> jsstring \<Rightarrow> jsstring" where
  \<comment> \<open>Modelled from the spec: a text cut to a number of bytes, that is, its longest
      beginning of whole characters that fits into them.\<close>
  "take_bytes n [] = []"
| "take_bytes n [c] = (if unit_bytes c \<le> n then [c] else [])"
| "take_bytes n (c # d # cs) =
     (if high_surrogate c \<and> low_surrogate d
      then (if 4 \<le> n then c # d # take_bytes (n - 4) cs else [])
      else (if unit_bytes c \<le> n then c # take_bytes (n - unit_bytes c) (d # cs) else []))"

definition truncated :: "Answer \<Rightarrow> Answer" where
  \<comment> \<open>Modelled from the spec: step (7) of the Dispatcher, missing from the listing. A
      text of more bytes than the limit is cut to the limit less three bytes and gets the
      three characters of the ellipsis marker.\<close>
  "truncated a =
     (if utf8_length (answer a) > MAX_RESPONSE_LENGTH CONFIG
      then a\<lparr>answer := take_bytes (MAX_RESPONSE_LENGTH CONFIG - 3) (answer a) @ js ''...''\<rparr>
      else a)"

definition rate_limit_answer :: Answer where
  \<comment> \<open>Modelled from the spec: the fixed answer of a rejected request.\<close>
  "rate_limit_answer =
     \<lparr> answer = js ''rate limit exceeded'', cached = False, handler = js ''dispatcher'' \<rparr>"

definition unavailable_answer :: Answer where
  \<comment> \<open>Modelled from the spec: the fallback answer after a handler or gateway failure.\<close>
  "unavailable_answer =
     \<lparr> answer = js ''temporarily unavailable'', cached = False, handler = js ''dispatcher'' \<rparr>"

definition invoke :: "evaluator \<Rightarrow> backend \<Rightarrow> Query \<Rightarrow> state \<Rightarrow> Answer outcome" where
  \<comment> \<open>Modelled from the spec: step (5) of the Dispatcher, missing from the listing. The
      handlers of the listing strip the command label themselves, so they get the command
      and the arguments joined by dots; an unknown command gets the answer of
      \<^verbatim>\<open>help\<close>.\<close>
  "invoke evaluate generateContent q s =
     (let query = join_js [dot] (command q # args q)
      in case handlers (command q) of
           Some h \<Rightarrow> h evaluate generateContent query s
         | None \<Rightarrow> handlers_help evaluate generateContent query s)"

text \<open>
  Modelled from the spec: what the dispatcher is given for one inbound query, namely the
  time of arrival, the client's key and the queried name; with it, what the backend
  does if this query reaches it.
\<close>

record request =
  arrival :: int
  clientKey :: jsstring
  qname :: jsstring
  reply :: backend

definition process :: "(jsstring \<Rightarrow> Query) \<Rightarrow> (Query \<Rightarrow> jsstring) \<Rightarrow> evaluator
                         \<Rightarrow> request \<Rightarrow> state \<Rightarrow> Answer \<times> state" where
  \<comment> \<open>Modelled from the spec: steps (3) to (8) of the Dispatcher, missing from the
      listing. The Command Parser and the normalisation of the cache key are parameters.
      Step (6) counts an error for a failed handler, as section 4.7 says, on top of the
      one \<^verbatim>\<open>callAI\<close> has counted.\<close>
  "process parse key_of evaluate r s =
     (let q = parse (qname r);
          key = key_of q
      in case cache_get (arrival r) key s of
           Some a \<Rightarrow>
             (truncated (a\<lparr>cached := True\<rparr>),
              s\<lparr>stats := (stats s)\<lparr>cacheHits := cacheHits (stats s) + 1\<rparr>\<rparr>)
         | None \<Rightarrow>
             (case invoke evaluate (reply r) q
                     (s\<lparr>stats := (stats s)\<lparr>cacheMisses := cacheMisses (stats s) + 1\<rparr>\<rparr>) of
                (Inr a, s') \<Rightarrow> (truncated a, cache_set (arrival r) key a s')
              | (Inl error, s') \<Rightarrow> (truncated unavailable_answer, count_error s')))"

definition dispatch :: "(jsstring \<Rightarrow> Query) \<Rightarrow> (Query \<Rightarrow> jsstring) \<Rightarrow> evaluator
                          \<Rightarrow> request \<Rightarrow> state \<Rightarrow> Answer \<times> state" where
  \<comment> \<open>Modelled from the spec: the Dispatcher, missing from the listing; steps (1) and
      (2), then the rest.\<close>
  "dispatch parse key_of evaluate r s =
     (let s1 = s\<lparr>stats := (stats s)\<lparr>totalQueries := totalQueries (stats s) + 1\<rparr>\<rparr>
      in case check (arrival r) (clientKey r) (rateLimitMap s1) of
           (Reject, m) \<Rightarrow> (rate_limit_answer, s1\<lparr>rateLimitMap := m\<rparr>)
         | (Allow, m) \<Rightarrow> process parse key_of evaluate r (s1\<lparr>rateLimitMap := m\<rparr>))"

fun serve :: "(jsstring \<Rightarrow> Query) \<Rightarrow> (Query \<Rightarrow> jsstring) \<Rightarrow> evaluator
                \<Rightarrow> request list \<Rightarrow> state \<Rightarrow> Answer list \<times> state" where
  \<comment> \<open>Modelled from the spec: the queries of a run, dispatched in their order of
      arrival.\<close>
  "serve parse key_of evaluate [] s = ([], s)"
| "serve parse key_of evaluate (r # rs) s =
     (case dispatch parse key_of evaluate r s of
        (a, s') \<Rightarrow>
          (case serve parse key_of evaluate rs s' of
             (as, s'') \<Rightarrow> (a # as, s'')))"


section \<open>The state at start-up and a frame property\<close>

definition initial_state :: state where
  \<comment> \<open>the module-level initialisers: all counters 0, no category, an empty cache and an
      empty rate-limit map\<close>
  "initial_state =
     \<lparr> stats = \<lparr> totalQueries = 0, cacheHits = 0, cacheMisses = 0, errors = 0,
                 byCategory = Map.empty \<rparr>,
       cache = Map.empty, rateLimitMap = Map.empty \<rparr>"

definition untouched :: "(state \<Rightarrow> Answer outcome) \<Rightarrow> bool" where
  \<comment> \<open>A computation neither writes nor reads the cache and the rate-limit map: it
      leaves both as they are, it does the same whatever they hold, and the answer it
      returns is not marked as cached.\<close>
  "untouched f =
     (\<forall>s c m. cache (snd (f s)) = cache s
            \<and> rateLimitMap (snd (f s)) = rateLimitMap s
            \<and> (\<forall>a. fst (f s) = Inr a \<longrightarrow> cached a = False)
            \<and> f (s\<lparr>cache := c, rateLimitMap := m\<rparr>)
                = (fst (f s), (snd (f s))\<lparr>cache := c, rateLimitMap := m\<rparr>))"



section \<open>Collaborators and requests of the examples\<close>

text \<open>
  The parser, the cache key, the evaluator and the backend are parameters of everything
  above. The concrete examples further down run the definitions on the following
  instances of them: a parser that takes the first label of the name as the command and
  the other labels as the arguments, the key that joins them again, an evaluator that
  knows one sum, a backend that cannot be reached, and one that returns 300 characters.
\<close>

definition labels_parse :: "jsstring \<Rightarrow> Query" where
  "labels_parse n =
     (case split_js dot n of
        [] \<Rightarrow> \<lparr> rawName = n, command = [], args = [] \<rparr>
      | l # ls \<Rightarrow> \<lparr> rawName = n, command = l, args = ls \<rparr>)"

definition labels_key :: "Query \<Rightarrow> jsstring" where
  "labels_key q = join_js [dot] (command q # args q)"

definition sample_evaluator :: evaluator where
  "sample_evaluator expression =
     (if expression = js ''2 + 2'' then Inr (js ''4'')
      else Inl (JsError (js ''SyntaxError'') (js ''Value expected (char 1)'')))"

definition backend_down :: backend where
  "backend_down prompt = Inl (JsError (js ''Error'') (js ''fetch failed''))"

definition long_reply :: backend where
  "long_reply prompt = Inr (Some (replicate 300 (of_char CHR ''a'')))"

definition request_at :: "int \<Rightarrow> jsstring \<Rightarrow> backend \<Rightarrow> request" where
  "request_at now n be =
     \<lparr> arrival = now, clientKey = js ''192.0.2.1'', qname = n, reply = be \<rparr>"


section \<open>Strings\<close>

lemma length_js: "length (js s) = length s"
  by (simp add: js_def)


section \<open>The gateway: \<^verbatim>\<open>callAI\<close>\<close>

text \<open>
  C2. For a backend text of more than 255 code units, the specification has
  \<^verbatim>\<open>callAI\<close> return the first 252 code units followed by \<^verbatim>\<open>...\<close>. The code
  computes that string and then assigns it to a \<^verbatim>\<open>const\<close> binding: for a text of
  300 characters \<^verbatim>\<open>callAI\<close> returns no answer at all; it throws a TypeError, after
  counting one error and without counting the category.
\<close>

theorem callAI_long_text_throws:
  "callAI long_reply prompt category s = (Inl const_assignment, count_error s)"
  by (simp add: callAI_def long_reply_def text_or_default_def CONFIG_def)

lemma callAI_throws_on_every_long_text:
  "length t > 255 \<Longrightarrow> be prompt = Inr (Some t)
     \<Longrightarrow> callAI be prompt category s = (Inl const_assignment, count_error s)"
  by (auto simp add: callAI_def text_or_default_def CONFIG_def)

lemma callAI_returns_short_text:
  "length t \<le> 255 \<Longrightarrow> t \<noteq> [] \<Longrightarrow> be prompt = Inr (Some t)
     \<Longrightarrow> callAI be prompt category s
           = (Inr \<lparr> answer = t, cached = False, handler = js ''ai'' \<rparr>,
              count_category category s)"
  by (simp add: callAI_def text_or_default_def CONFIG_def)

text \<open>
  C7. When the backend call fails, \<^verbatim>\<open>callAI\<close> adds exactly one to
  \<^verbatim>\<open>stats.errors\<close>, changes nothing else of the state (so \<^verbatim>\<open>byCategory\<close> and
  the cache are as before, and no cache entry appears), and throws the same error again.
\<close>

theorem callAI_backend_failure:
  assumes "be prompt = Inl error"
  shows "callAI be prompt category s
           = (Inl error, s\<lparr>stats := (stats s)\<lparr>errors := errors (stats s) + 1\<rparr>\<rparr>)
       \<and> errors (stats (snd (callAI be prompt category s))) = errors (stats s) + 1
       \<and> byCategory (stats (snd (callAI be prompt category s))) = byCategory (stats s)
       \<and> cache (snd (callAI be prompt category s)) = cache s"
  using assms by (simp add: callAI_def count_error_def)

theorem callAI_backend_failure_witness:
  \<open>callAI (\<lambda>p. Inl (JsError (js ''Error'') (js ''fetch failed''))) (js ''Define "x" in one concise sentence.'')
      (js ''definition'') initial_state
     = (Inl (JsError (js ''Error'') (js ''fetch failed'')),
        initial_state\<lparr>stats := (stats initial_state)\<lparr>errors := 1\<rparr>\<rparr>)\<close>
  using callAI_backend_failure
      [of "\<lambda>p. Inl (JsError (js ''Error'') (js ''fetch failed''))"
          \<open>js ''Define "x" in one concise sentence.''\<close>
          "JsError (js ''Error'') (js ''fetch failed'')" "js ''definition''" initial_state]
  by (simp add: initial_state_def)

lemma callAI_category_only_on_success:
  "byCategory (stats (snd (callAI be prompt category s))) \<noteq> byCategory (stats s)
     \<Longrightarrow> \<exists>a. fst (callAI be prompt category s) = Inr a"
  by (auto simp add: callAI_def count_error_def Let_def split: sum.splits if_splits)


section \<open>The local handlers\<close>

text \<open>
  C5. When the evaluator returns a value for the expression, \<^verbatim>\<open>handlers.calc\<close>
  returns (it does not throw) the answer whose text is the expression, then
  \<^verbatim>\<open> = \<close>, then the value, with handler \<^verbatim>\<open>calc\<close>. The query
  \<^verbatim>\<open>calc.2.+.2\<close> gives the expression \<^verbatim>\<open>2 + 2\<close> and, the evaluator returning 4
  for it, the text \<^verbatim>\<open>2 + 2 = 4\<close>.
\<close>

theorem calc_answers_valid_expression:
  assumes "evaluate (spaced ''calc'' query) = Inr result"
  shows "handlers_calc evaluate be query s
           = (Inr \<lparr> answer = spaced ''calc'' query @ js '' = '' @ result, cached = False,
                     handler = js ''calc'' \<rparr>, s)
       \<and> spaced ''calc'' (js ''calc.2.+.2'') = js ''2 + 2''
       \<and> (query = js ''calc.2.+.2'' \<and> result = js ''4''
            \<longrightarrow> handlers_calc evaluate be query s
                  = (Inr \<lparr> answer = js ''2 + 2 = 4'', cached = False, handler = js ''calc'' \<rparr>, s))"
proof -
  have expr: "spaced ''calc'' (js ''calc.2.+.2'') = js ''2 + 2''"
    by (simp add: spaced_def stripped_def js_def dot_def canonicalize_def)
  have general: "handlers_calc evaluate be query s
           = (Inr \<lparr> answer = spaced ''calc'' query @ js '' = '' @ result, cached = False,
                     handler = js ''calc'' \<rparr>, s)"
    using assms by (simp add: handlers_calc_def calc_try_def)
  have "js ''2 + 2'' @ js '' = '' @ js ''4'' = js ''2 + 2 = 4''"
    by (simp add: js_def)
  with expr general show ?thesis by auto
qed

theorem calc_answers_valid_expression_witness:
  "handlers_calc
      (\<lambda>e. if e = js ''2 + 2'' then Inr (js ''4'')
           else Inl (JsError (js ''SyntaxError'') (js ''Value expected'')))
      (\<lambda>p. Inr None) (js ''calc.2.+.2'') initial_state
     = (Inr \<lparr> answer = js ''2 + 2 = 4'', cached = False, handler = js ''calc'' \<rparr>,
        initial_state)"
proof -
  have e: "spaced ''calc'' (js ''calc.2.+.2'') = js ''2 + 2''"
    by (simp add: spaced_def stripped_def js_def dot_def canonicalize_def)
  show ?thesis
    using calc_answers_valid_expression
      [of "\<lambda>e. if e = js ''2 + 2'' then Inr (js ''4'')
               else Inl (JsError (js ''SyntaxError'') (js ''Value expected''))"
          "js ''calc.2.+.2''" "js ''4''" "\<lambda>p. Inr None" initial_state]
    by (simp add: e) (simp add: js_def)
qed

lemma calc_answer_length:
  "evaluate (spaced ''calc'' query) = Inr result
     \<Longrightarrow> length (answer (projr (fst (handlers_calc evaluate be query s))))
           = length (spaced ''calc'' query) + 3 + length result"
  by (simp add: handlers_calc_def calc_try_def length_js)

text \<open>
  C6. When the evaluator throws, \<^verbatim>\<open>handlers.calc\<close> and \<^verbatim>\<open>handlers.unit\<close>
  catch the error and return an answer whose text is \<^verbatim>\<open>Math error: \<close>
  (\<^verbatim>\<open>Conversion error: \<close> for \<^verbatim>\<open>unit\<close>) followed by the error's message as it
  is; so both return an answer, and leave the state alone, on every query.
\<close>

theorem calc_unit_catch_evaluator_failure:
  "(evaluate (spaced ''calc'' query) = Inl error
      \<longrightarrow> handlers_calc evaluate be query s
            = (Inr \<lparr> answer = js ''Math error: '' @ message error, cached = False,
                      handler = js ''calc'' \<rparr>, s))
 \<and> (evaluate (spaced ''unit'' query) = Inl error
      \<longrightarrow> handlers_unit evaluate be query s
            = (Inr \<lparr> answer = js ''Conversion error: '' @ message error, cached = False,
                      handler = js ''unit'' \<rparr>, s))
 \<and> (\<exists>a. handlers_calc evaluate be query s = (Inr a, s))
 \<and> (\<exists>a. handlers_unit evaluate be query s = (Inr a, s))"
  by (auto simp add: handlers_calc_def calc_try_def handlers_unit_def unit_try_def
           split: sum.splits)

theorem calc_unit_catch_evaluator_failure_witness:
  "handlers_calc (\<lambda>e. Inl (JsError (js ''SyntaxError'') (js ''Value expected (char 1)'')))
      (\<lambda>p. Inr None) (js ''calc.+'') initial_state
     = (Inr \<lparr> answer = js ''Math error: Value expected (char 1)'', cached = False,
               handler = js ''calc'' \<rparr>, initial_state)
 \<and> handlers_unit (\<lambda>e. Inl (JsError (js ''SyntaxError'') (js ''Value expected (char 1)'')))
      (\<lambda>p. Inr None) (js ''unit.+'') initial_state
     = (Inr \<lparr> answer = js ''Conversion error: Value expected (char 1)'', cached = False,
               handler = js ''unit'' \<rparr>, initial_state)"
  using calc_unit_catch_evaluator_failure
      [of "\<lambda>e. Inl (JsError (js ''SyntaxError'') (js ''Value expected (char 1)''))"
          "js ''calc.+''" "JsError (js ''SyntaxError'') (js ''Value expected (char 1)'')"
          "\<lambda>p. Inr None" initial_state]
    calc_unit_catch_evaluator_failure
      [of "\<lambda>e. Inl (JsError (js ''SyntaxError'') (js ''Value expected (char 1)''))"
          "js ''unit.+''" "JsError (js ''SyntaxError'') (js ''Value expected (char 1)'')"
          "\<lambda>p. Inr None" initial_state]
  by (simp add: js_def)

subsection \<open>Counters are printed in decimal\<close>

lemma unat_digit:
  assumes "d < 10"
  shows "unat (of_nat (48 + d) :: code_unit) = 48 + d"
proof -
  have "unat (of_nat (48 + d) :: code_unit) = (48 + d) mod 2 ^ LENGTH(16)"
    by (rule unat_of_nat)
  with assms show ?thesis by simp
qed

lemma digit_in_range:
  assumes "d < 10"
  shows "(48 :: code_unit) \<le> of_nat (48 + d) \<and> (of_nat (48 + d) :: code_unit) \<le> 57"
  using unat_digit[OF assms] assms by (simp only: word_le_nat_alt) simp

lemma digit_of_unit:
  assumes "48 \<le> c" and "c \<le> 57"
  shows "(of_nat (48 + (unat c - 48)) :: code_unit) = c" and "unat c - 48 < 10"
  using assms by (simp_all add: word_le_nat_alt)

lemma decimal_value_snoc:
  "decimal_value (ds @ [c]) = 10 * decimal_value ds + (unat c - 48)"
  by (simp add: decimal_value_def)

lemma String_nat_not_empty: "String_nat n \<noteq> []"
  by (subst String_nat.simps) simp

lemma String_nat_digits: "list_all (\<lambda>c. 48 \<le> c \<and> c \<le> 57) (String_nat n)"
proof (induction n rule: String_nat.induct)
  case (1 n)
  show ?case
  proof (cases "n < 10")
    case True
    then show ?thesis
      using digit_in_range[of n] by (subst String_nat.simps) simp
  next
    case False
    with 1 show ?thesis
      using digit_in_range[of "n mod 10"] by (subst String_nat.simps) simp
  qed
qed

lemma String_nat_value: "decimal_value (String_nat n) = n"
proof (induction n rule: String_nat.induct)
  case (1 n)
  show ?case
  proof (cases "n < 10")
    case True
    then show ?thesis
      using unat_digit[of n] by (subst String_nat.simps) (simp add: decimal_value_def)
  next
    case False
    with 1 have "decimal_value (String_nat (n div 10)) = n div 10" by simp
    with False show ?thesis
      using unat_digit[of "n mod 10"]
      by (subst String_nat.simps) (simp add: decimal_value_snoc)
  qed
qed

lemma String_nat_leading: "0 < n \<Longrightarrow> hd (String_nat n) \<noteq> 48"
proof (induction n rule: String_nat.induct)
  case (1 n)
  show ?case
  proof (cases "n < 10")
    case True
    with "1.prems" have "unat (of_nat (48 + n) :: code_unit) \<noteq> unat (48 :: code_unit)"
      using unat_digit[of n] by simp
    then have "(of_nat (48 + n) :: code_unit) \<noteq> 48" by auto
    with True show ?thesis by (subst String_nat.simps) simp
  next
    case False
    then have "0 < n div 10" by simp
    with 1 False have "hd (String_nat (n div 10)) \<noteq> 48" by simp
    with False show ?thesis
      by (subst String_nat.simps) (simp add: String_nat_not_empty)
  qed
qed

lemma String_nat_zero: "String_nat 0 = [48]"
  by (subst String_nat.simps) simp

lemma String_nat_decimal: "decimal_numeral (String_nat n) n"
proof (cases "n = 0")
  case True
  then show ?thesis
    by (simp add: decimal_numeral_def String_nat_zero decimal_value_def)
next
  case False
  then show ?thesis
    by (simp add: decimal_numeral_def String_nat_not_empty String_nat_digits
          String_nat_value String_nat_leading)
qed

lemma decimal_value_Cons_ge:
  "foldl (\<lambda>v c. 10 * v + (unat c - 48)) a ds \<ge> (a::nat)"
proof (induction ds arbitrary: a)
  case Nil
  then show ?case by simp
next
  case (Cons c ds)
  have "a \<le> 10 * a + (unat c - 48)" by simp
  also have "\<dots> \<le> foldl (\<lambda>v c. 10 * v + (unat c - 48)) (10 * a + (unat c - 48)) ds"
    by (rule Cons.IH)
  finally show ?case by simp
qed

lemma decimal_value_positive:
  assumes "ds \<noteq> []" and "list_all (\<lambda>c. 48 \<le> c \<and> c \<le> 57) ds" and "hd ds \<noteq> 48"
  shows "0 < decimal_value ds"
proof -
  from assms(1) obtain c cs where ds: "ds = c # cs" by (cases ds) auto
  with assms have "48 \<le> c" "c \<noteq> 48" by simp_all
  then have "48 < c" by simp
  then have "48 < unat c" by (simp add: word_less_nat_alt)
  then have "0 < unat c - 48" by simp
  moreover have "decimal_value ds \<ge> unat c - 48"
    using decimal_value_Cons_ge[of "unat c - 48" cs] by (simp add: ds decimal_value_def)
  ultimately show ?thesis by simp
qed

lemma decimal_numeral_unique:
  "decimal_numeral ds n \<Longrightarrow> ds = String_nat n"
proof (induction ds arbitrary: n rule: rev_induct)
  case Nil
  then show ?case by (simp add: decimal_numeral_def)
next
  case (snoc c ds)
  from snoc.prems have c: "48 \<le> c" "c \<le> 57"
    and digits: "list_all (\<lambda>c. 48 \<le> c \<and> c \<le> 57) ds"
    and n: "n = 10 * decimal_value ds + (unat c - 48)"
    by (simp_all add: decimal_numeral_def decimal_value_snoc)
  have d: "unat c - 48 < 10" and same_unit: "(of_nat (48 + (unat c - 48)) :: code_unit) = c"
    using digit_of_unit[OF c] by simp_all
  show ?case
  proof (cases "ds = []")
    case True
    with n have "n = unat c - 48" by (simp add: decimal_value_def)
    with d same_unit True show ?thesis
      by (subst String_nat.simps) simp
  next
    case False
    with snoc.prems have lead: "hd ds \<noteq> 48"
      by (auto simp add: decimal_numeral_def split: if_splits)
    have pos: "0 < decimal_value ds"
      by (rule decimal_value_positive[OF False digits lead])
    have "decimal_numeral ds (decimal_value ds)"
      using False digits lead by (simp add: decimal_numeral_def)
    then have ds: "ds = String_nat (decimal_value ds)"
      by (rule snoc.IH)
    from n d pos have big: "\<not> n < 10" and q: "n div 10 = decimal_value ds"
      and m: "n mod 10 = unat c - 48"
      by simp_all
    have "String_nat n = String_nat (n div 10) @ [of_nat (48 + n mod 10)]"
      using big by (subst String_nat.simps) simp
    with q m same_unit ds show ?thesis by simp
  qed
qed

text \<open>
  C9. Whatever the counters are, the answer of \<^verbatim>\<open>handlers.stats\<close> has the text
  \<^verbatim>\<open>Queries:<totalQueries> Cache:<cacheHits>/<totalQueries> Errors:<errors>\<close>, each
  counter standing there as its decimal numeral; with 5 queries, 2 cache hits and 1 error
  it is \<^verbatim>\<open>Queries:5 Cache:2/5 Errors:1\<close>, and with 1204 queries, 350 cache hits
  and 17 errors it is \<^verbatim>\<open>Queries:1204 Cache:350/1204 Errors:17\<close>.
\<close>

theorem stats_text:
  "(\<exists>q h e. decimal_numeral q (totalQueries (stats s))
           \<and> decimal_numeral h (cacheHits (stats s))
           \<and> decimal_numeral e (errors (stats s))
           \<and> handlers_stats evaluate be query s =
               (Inr \<lparr> answer = js ''Queries:'' @ q @ js '' Cache:'' @ h @ js ''/'' @ q
                                @ js '' Errors:'' @ e,
                       cached = False, handler = js ''stats'' \<rparr>, s))
   \<and> answer (projr (fst (handlers_stats evaluate be query
        \<lparr> stats = \<lparr> totalQueries = 5, cacheHits = 2, cacheMisses = misses, errors = 1,
                    byCategory = categories \<rparr>, cache = c, rateLimitMap = m \<rparr>)))
       = js ''Queries:5 Cache:2/5 Errors:1''
   \<and> answer (projr (fst (handlers_stats evaluate be query
        \<lparr> stats = \<lparr> totalQueries = 1204, cacheHits = 350, cacheMisses = misses, errors = 17,
                    byCategory = categories \<rparr>, cache = c, rateLimitMap = m \<rparr>)))
       = js ''Queries:1204 Cache:350/1204 Errors:17''"
proof -
  have general: "\<exists>q h e. decimal_numeral q (totalQueries (stats s))
           \<and> decimal_numeral h (cacheHits (stats s))
           \<and> decimal_numeral e (errors (stats s))
           \<and> handlers_stats evaluate be query s =
               (Inr \<lparr> answer = js ''Queries:'' @ q @ js '' Cache:'' @ h @ js ''/'' @ q
                                @ js '' Errors:'' @ e,
                       cached = False, handler = js ''stats'' \<rparr>, s)"
    using String_nat_decimal[of "totalQueries (stats s)"]
      String_nat_decimal[of "cacheHits (stats s)"] String_nat_decimal[of "errors (stats s)"]
    unfolding handlers_stats_def Let_def by blast
  have small: "answer (projr (fst (handlers_stats evaluate be query
        \<lparr> stats = \<lparr> totalQueries = 5, cacheHits = 2, cacheMisses = misses, errors = 1,
                    byCategory = categories \<rparr>, cache = c, rateLimitMap = m \<rparr>)))
       = js ''Queries:5 Cache:2/5 Errors:1''"
    by (simp add: handlers_stats_def String_nat.simps js_def)
  have large: "answer (projr (fst (handlers_stats evaluate be query
        \<lparr> stats = \<lparr> totalQueries = 1204, cacheHits = 350, cacheMisses = misses, errors = 17,
                    byCategory = categories \<rparr>, cache = c, rateLimitMap = m \<rparr>)))
       = js ''Queries:1204 Cache:350/1204 Errors:17''"
    by (simp add: handlers_stats_def String_nat.simps js_def)
  from general small large show ?thesis by blast
qed


section \<open>What the handlers take from the query name\<close>

lemma match_here_folded:
  "map canonicalize p = map canonicalize pat \<Longrightarrow> match_here pat (p @ rest)"
proof (induction pat arbitrary: p)
  case Nil
  then show ?case by simp
next
  case (Cons a pat)
  then obtain b p' where p: "p = b # p'" by (cases p) auto
  with Cons.prems have "canonicalize a = canonicalize b" "map canonicalize p' = map canonicalize pat"
    by simp_all
  with Cons.IH[of p'] p show ?case by simp
qed

lemma replace_js_front:
  assumes "map canonicalize p = map canonicalize pat" and "pat \<noteq> []"
  shows "replace_js pat (p @ rest) = rest"
proof -
  from assms have len: "length p = length pat"
    by (metis length_map)
  with assms(2) obtain b p' where p: "p = b # p'" by (cases p) auto
  have "match_here pat (p @ rest)"
    by (rule match_here_folded[OF assms(1)])
  moreover have "drop (length pat) (p @ rest) = rest"
    using len by simp
  ultimately show ?thesis
    using p by simp
qed

lemma split_js_not_empty: "split_js sep s \<noteq> []"
  by (induction s) (auto split: list.splits)

lemma join_split_js: "join_js [sep] (split_js sep s) = s"
proof (induction s)
  case Nil
  then show ?case by simp
next
  case (Cons c s)
  obtain piece pieces where sp: "split_js sep s = piece # pieces"
    using split_js_not_empty[of sep s] by (cases "split_js sep s") auto
  show ?case
  proof (cases "c = sep")
    case True
    with Cons sp show ?thesis by simp
  next
    case False
    with Cons sp show ?thesis by (cases pieces) simp_all
  qed
qed

lemma split_js_labels: "label \<in> set (split_js sep s) \<Longrightarrow> sep \<notin> set label"
  by (induction s arbitrary: label) (auto split: list.splits if_splits)

text \<open>
  The expression every handler starts with: a name that begins with the command label and
  a dot, in any mix of upper and lower case, loses exactly that prefix, and all the rest is
  split at the dots.
\<close>

lemma stripped_leading_command:
  assumes "map canonicalize p = map canonicalize (js cmd @ [dot])"
  shows "stripped cmd (p @ rest) = split_js dot rest
       \<and> spaced cmd (p @ rest) = join_js (js '' '') (split_js dot rest)
       \<and> join_js [dot] (split_js dot rest) = rest
       \<and> (\<forall>label \<in> set (split_js dot rest). dot \<notin> set label)"
proof -
  have "replace_js (js cmd @ [dot]) (p @ rest) = rest"
    by (rule replace_js_front[OF assms]) simp
  then show ?thesis
    by (simp add: stripped_def spaced_def join_split_js split_js_labels)
qed

text \<open>
  A handler on its own strips no suffix: were it given a name that still carries one, the
  labels of the suffix would be arguments like the others. The suffix has to be gone
  before a handler is called.
\<close>

lemma calc_alone_strips_no_suffix:
  "stripped ''calc'' (js ''calc.2.+.2.example.com'')
     = [js ''2'', js ''+'', js ''2'', js ''example'', js ''com'']
   \<and> spaced ''calc'' (js ''calc.2.+.2.example.com'') = js ''2 + 2 example com''
   \<and> spaced ''calc'' (js ''calc.2.+.2.example.com'') \<noteq> js ''2 + 2''"
  by (simp add: spaced_def stripped_def js_def dot_def canonicalize_def)

subsection \<open>From the raw name to the arguments of the handler\<close>

lemma to_lower_cases:
  "to_lower c = c \<or> (65 \<le> c \<and> c \<le> 90 \<and> to_lower c = c + 32)"
  by (simp add: to_lower_def)















section \<open>No handler touches the cache or the rate-limit map\<close>

lemma callAI_keeps_maps:
  "cache (snd (callAI be prompt category s)) = cache s"
  "rateLimitMap (snd (callAI be prompt category s)) = rateLimitMap s"
  by (simp_all add: callAI_def Let_def count_error_def count_category_def split: sum.splits)

lemma callAI_not_cached:
  "fst (callAI be prompt category s) = Inr a \<Longrightarrow> cached a = False"
  by (auto simp add: callAI_def Let_def split: sum.splits if_splits)

lemma callAI_ignores_maps:
  "callAI be prompt category (s\<lparr>cache := c, rateLimitMap := m\<rparr>)
     = (fst (callAI be prompt category s),
        (snd (callAI be prompt category s))\<lparr>cache := c, rateLimitMap := m\<rparr>)"
  by (simp add: callAI_def Let_def count_error_def count_category_def split: sum.splits)

lemma untouched_callAI: "untouched (callAI be prompt category)"
  unfolding untouched_def
  using callAI_keeps_maps callAI_not_cached callAI_ignores_maps by blast

lemma registry_cases:
  "handlers nm = Some h \<Longrightarrow>
     h \<in> {handlers_calc, handlers_translate, handlers_code, handlers_timezone,
          handlers_convert, handlers_spell, handlers_onthisday, handlers_unit,
          handlers_acronym, handlers_tip, handlers_weather, handlers_fact,
          handlers_define, handlers_stats, handlers_help}"
  by (auto simp add: handlers_def split: if_splits)

lemma untouched_local:
  "untouched (handlers_calc ev be q)" "untouched (handlers_unit ev be q)"
  "untouched (handlers_stats ev be q)" "untouched (handlers_help ev be q)"
  by (auto simp add: untouched_def handlers_calc_def calc_try_def handlers_unit_def unit_try_def
        handlers_stats_def handlers_help_def Let_def split: sum.splits)

lemma untouched_remote:
  "untouched (handlers_translate ev be q)" "untouched (handlers_code ev be q)"
  "untouched (handlers_timezone ev be q)" "untouched (handlers_convert ev be q)"
  "untouched (handlers_spell ev be q)" "untouched (handlers_onthisday ev be q)"
  "untouched (handlers_acronym ev be q)" "untouched (handlers_tip ev be q)"
  "untouched (handlers_weather ev be q)" "untouched (handlers_fact ev be q)"
  "untouched (handlers_define ev be q)" "untouched (handlers_ip ev be q)"
  unfolding handlers_translate_def handlers_code_def handlers_timezone_def handlers_convert_def
    handlers_spell_def handlers_onthisday_def handlers_acronym_def handlers_tip_def
    handlers_weather_def handlers_fact_def handlers_define_def handlers_ip_def Let_def
  by (rule untouched_callAI)+

lemma untouched_registry:
  assumes "handlers nm = Some h \<or> h = handlers_ip"
  shows "untouched (h ev be q)"
  using assms registry_cases[of nm h] untouched_local[of ev be q] untouched_remote[of ev be q]
  by auto

text \<open>
  C10. Every handler of the registry (and the \<^verbatim>\<open>ip\<close> handler of the shorter
  listing), and \<^verbatim>\<open>callAI\<close> itself, leaves the cache and the rate-limit map as they
  were, behaves the same whatever the two hold, and returns only answers with
  \<^verbatim>\<open>cached\<close> false.
\<close>

theorem handlers_leave_cache_and_rate_limits:
  assumes "handlers nm = Some h \<or> h = handlers_ip"
  shows "cache (snd (h evaluate be query s)) = cache s
       \<and> rateLimitMap (snd (h evaluate be query s)) = rateLimitMap s
       \<and> h evaluate be query (s\<lparr>cache := c, rateLimitMap := m\<rparr>)
           = (fst (h evaluate be query s),
              (snd (h evaluate be query s))\<lparr>cache := c, rateLimitMap := m\<rparr>)
       \<and> (\<forall>a. fst (h evaluate be query s) = Inr a \<longrightarrow> cached a = False)
       \<and> cache (snd (callAI be prompt category s)) = cache s
       \<and> rateLimitMap (snd (callAI be prompt category s)) = rateLimitMap s
       \<and> callAI be prompt category (s\<lparr>cache := c, rateLimitMap := m\<rparr>)
           = (fst (callAI be prompt category s),
              (snd (callAI be prompt category s))\<lparr>cache := c, rateLimitMap := m\<rparr>)
       \<and> (\<forall>a. fst (callAI be prompt category s) = Inr a \<longrightarrow> cached a = False)"
proof -
  have "untouched (h evaluate be query)"
    by (rule untouched_registry[OF assms])
  moreover have "untouched (callAI be prompt category)"
    by (rule untouched_callAI)
  ultimately show ?thesis
    unfolding untouched_def by blast
qed

theorem handlers_leave_cache_and_rate_limits_witness:
  "handlers (js ''define'') = Some handlers_define
   \<and> fst (handlers_define (\<lambda>e. Inr e) (\<lambda>p. Inr (Some (js ''a word''))) (js ''define.x'') initial_state)
       = Inr \<lparr> answer = js ''a word'', cached = False, handler = js ''ai'' \<rparr>
   \<and> cache (snd (handlers_define (\<lambda>e. Inr e) (\<lambda>p. Inr (Some (js ''a word''))) (js ''define.x'')
                    initial_state)) = Map.empty
   \<and> rateLimitMap (snd (handlers_define (\<lambda>e. Inr e) (\<lambda>p. Inr (Some (js ''a word''))) (js ''define.x'')
                    initial_state)) = Map.empty"
proof -
  let ?run = "handlers_define (\<lambda>e. Inr e) (\<lambda>p. Inr (Some (js ''a word''))) (js ''define.x'')
                initial_state"
  have reg: "handlers (js ''define'') = Some handlers_define"
    by (simp add: handlers_def js_def)
  have run: "fst ?run = Inr \<lparr> answer = js ''a word'', cached = False, handler = js ''ai'' \<rparr>"
    by (simp add: handlers_define_def callAI_def text_or_default_def CONFIG_def js_def)
  from handlers_leave_cache_and_rate_limits[OF disjI1[OF reg], of "\<lambda>e. Inr e"
         "\<lambda>p. Inr (Some (js ''a word''))" "js ''define.x''" initial_state]
  have "cache (snd ?run) = cache initial_state
      \<and> rateLimitMap (snd ?run) = rateLimitMap initial_state
      \<and> cached \<lparr> answer = js ''a word'', cached = False, handler = js ''ai'' \<rparr> = False"
    using run by blast
  then have "cache (snd ?run) = Map.empty \<and> rateLimitMap (snd ?run) = Map.empty"
    by (simp add: initial_state_def)
  with reg run show ?thesis by blast
qed


section \<open>The dispatcher\<close>

lemma unit_bytes_positive: "1 \<le> unit_bytes c"
  by (simp add: unit_bytes_def)

lemma take_bytes_head:
  "take_bytes n (d # cs) = [] \<or> (\<exists>rest. take_bytes n (d # cs) = d # rest)"
  by (cases cs) auto

lemma utf8_length_Cons_unpaired:
  assumes "\<not> (high_surrogate c \<and> low_surrogate d)"
  shows "utf8_length (c # take_bytes n (d # cs)) = unit_bytes c + utf8_length (take_bytes n (d # cs))"
  using take_bytes_head[of n d cs] assms by auto

lemma utf8_length_take_bytes: "utf8_length (take_bytes n s) \<le> n"
proof (induction n s rule: take_bytes.induct)
  case (1 n)
  then show ?case by simp
next
  case (2 n c)
  then show ?case by simp
next
  case (3 n c d cs)
  show ?case
  proof (cases "high_surrogate c \<and> low_surrogate d")
    case True
    with 3 show ?thesis by auto
  next
    case False
    show ?thesis
    proof (cases "unit_bytes c \<le> n")
      case fits: True
      with 3 False have "utf8_length (take_bytes (n - unit_bytes c) (d # cs)) \<le> n - unit_bytes c"
        by simp
      with fits False show ?thesis
        using utf8_length_Cons_unpaired[OF False, of "n - unit_bytes c" cs] by auto
    next
      case False
      with \<open>\<not> (high_surrogate c \<and> low_surrogate d)\<close> show ?thesis by auto
    qed
  qed
qed

lemma utf8_length_append_unpaired:
  assumes "ys = [] \<or> \<not> low_surrogate (hd ys)"
  shows "utf8_length (xs @ ys) = utf8_length xs + utf8_length ys"
  using assms
proof (induction xs rule: utf8_length.induct)
  case 1
  then show ?case by simp
next
  case (2 c)
  then show ?case by (cases ys) auto
next
  case (3 c d cs)
  then show ?case by auto
qed

lemma length_le_utf8_length: "length s \<le> utf8_length s"
proof (induction s rule: utf8_length.induct)
  case 1
  then show ?case by simp
next
  case (2 c)
  then show ?case using unit_bytes_positive[of c] by simp
next
  case (3 c d cs)
  then show ?case using unit_bytes_positive[of c] by auto
qed

lemma ellipsis_bytes: "utf8_length (js ''...'') = 3" "\<not> low_surrogate (hd (js ''...''))"
  by (simp_all add: js_def unit_bytes_def high_surrogate_def low_surrogate_def)
lemma truncated_bound: "utf8_length (answer (truncated a)) \<le> 255"
proof (cases "utf8_length (answer a) > 255")
  case True
  have "utf8_length (take_bytes 252 (answer a) @ js ''...'')
          = utf8_length (take_bytes 252 (answer a)) + 3"
    using utf8_length_append_unpaired[of "js ''...''" "take_bytes 252 (answer a)"] ellipsis_bytes
    by simp
  moreover have "utf8_length (take_bytes 252 (answer a)) \<le> 252"
    by (rule utf8_length_take_bytes)
  ultimately show ?thesis
    using True by (simp add: truncated_def CONFIG_def)
next
  case False
  then show ?thesis by (simp add: truncated_def CONFIG_def)
qed

lemma process_bound:
  "utf8_length (answer (fst (process parse key_of evaluate r s))) \<le> 255"
  by (simp add: process_def Let_def truncated_bound split: option.splits prod.splits sum.splits)

lemma euro_text_bytes: "utf8_length (replicate 255 0x20AC) = 765"
  by code_simp

lemma euro_text_truncated:
  "utf8_length (answer (truncated \<lparr> answer = replicate 255 0x20AC, cached = False,
                                     handler = js ''ai'' \<rparr>)) = 255"
  by code_simp

text \<open>
  C1. Whatever the query, the client, the time and the state, and however long the text
  the handler produced, the answer the dispatcher hands back has a text of at most 255
  bytes, and so of at most 255 code units as well.
\<close>

theorem dispatch_answer_bounded:
  "utf8_length (answer (fst (dispatch parse key_of evaluate r s))) \<le> MAX_RESPONSE_LENGTH CONFIG
   \<and> length (answer (fst (dispatch parse key_of evaluate r s))) \<le> MAX_RESPONSE_LENGTH CONFIG
   \<and> MAX_RESPONSE_LENGTH CONFIG = 255"
proof -
  have "utf8_length (answer rate_limit_answer) \<le> 255"
    by (simp add: rate_limit_answer_def js_def unit_bytes_def high_surrogate_def
          low_surrogate_def)
  then have bytes: "utf8_length (answer (fst (dispatch parse key_of evaluate r s))) \<le> 255"
    by (simp add: dispatch_def Let_def process_bound split: prod.splits decision.splits)
  have "length (answer (fst (dispatch parse key_of evaluate r s)))
          \<le> utf8_length (answer (fst (dispatch parse key_of evaluate r s)))"
    by (rule length_le_utf8_length)
  with bytes show ?thesis by (simp add: CONFIG_def)
qed


section \<open>The rate limiter\<close>

lemma check_other:
  "c' \<noteq> c \<Longrightarrow> snd (check now c' m) c = m c"
  by (simp add: check_def split: option.splits)

lemma check_within:
  "m c = Some r \<Longrightarrow> now - windowStart r < RATE_LIMIT_WINDOW CONFIG \<Longrightarrow>
     check now c m = (if count r + 1 > RATE_LIMIT_MAX CONFIG then Reject else Allow,
                      m(c \<mapsto> r\<lparr>count := count r + 1\<rparr>))"
  by (simp add: check_def)

lemma check_first:
  "m c = None \<Longrightarrow> check now c m = (Allow, m(c \<mapsto> \<lparr> windowStart = now, count = 1 \<rparr>))"
  by (simp add: check_def)

lemma check_reset:
  "m c = Some r \<Longrightarrow> now - windowStart r \<ge> RATE_LIMIT_WINDOW CONFIG \<Longrightarrow>
     check now c m = (Allow, m(c \<mapsto> \<lparr> windowStart = now, count = 1 \<rparr>))"
  by (simp add: check_def)

lemma untouched_invoke: "untouched (invoke ev be q)"
proof -
  have "untouched (handlers_help ev be (join_js [dot] (command q # args q)))"
    by (rule untouched_local)
  moreover have "\<And>h. handlers (command q) = Some h
                   \<Longrightarrow> untouched (h ev be (join_js [dot] (command q # args q)))"
    by (rule untouched_registry, rule disjI1, assumption)
  ultimately show ?thesis
    unfolding untouched_def invoke_def Let_def
    by (auto split: option.splits)
qed

lemma invoke_rateLimitMap: "rateLimitMap (snd (invoke ev be q s)) = rateLimitMap s"
  using untouched_invoke[of ev be q] by (simp add: untouched_def)

lemma invoke_cache: "cache (snd (invoke ev be q s)) = cache s"
  using untouched_invoke[of ev be q] by (simp add: untouched_def)

lemma invoke_not_cached: "fst (invoke ev be q s) = Inr a \<Longrightarrow> cached a = False"
  using untouched_invoke[of ev be q] by (simp add: untouched_def)

lemma process_rateLimitMap:
  "rateLimitMap (snd (process parse key_of evaluate r s)) = rateLimitMap s"
proof (cases "cache_get (arrival r) (key_of (parse (qname r))) s")
  case None
  let ?s = "s\<lparr>stats := (stats s)\<lparr>cacheMisses := cacheMisses (stats s) + 1\<rparr>\<rparr>"
  have "rateLimitMap (snd (invoke evaluate (reply r) (parse (qname r)) ?s)) = rateLimitMap s"
    by (simp add: invoke_rateLimitMap)
  with None show ?thesis
    by (auto simp add: process_def Let_def cache_set_def count_error_def
             split: prod.splits sum.splits)
next
  case (Some a)
  then show ?thesis by (simp add: process_def Let_def)
qed

lemma dispatch_rateLimitMap:
  "rateLimitMap (snd (dispatch parse key_of evaluate r s))
     = snd (check (arrival r) (clientKey r) (rateLimitMap s))"
  by (simp add: dispatch_def Let_def process_rateLimitMap split: prod.splits decision.splits)

lemma dispatch_rejected:
  assumes "fst (check (arrival r) (clientKey r) (rateLimitMap s)) = Reject"
  shows "dispatch parse key_of evaluate r s
           = (rate_limit_answer,
              s\<lparr>stats := (stats s)\<lparr>totalQueries := totalQueries (stats s) + 1\<rparr>,
                rateLimitMap := snd (check (arrival r) (clientKey r) (rateLimitMap s))\<rparr>)"
  using assms
  by (cases "check (arrival r) (clientKey r) (rateLimitMap s)") (simp add: dispatch_def Let_def)

lemma dispatch_allowed:
  assumes "fst (check (arrival r) (clientKey r) (rateLimitMap s)) = Allow"
  shows "dispatch parse key_of evaluate r s
           = process parse key_of evaluate r
              (s\<lparr>stats := (stats s)\<lparr>totalQueries := totalQueries (stats s) + 1\<rparr>,
                 rateLimitMap := snd (check (arrival r) (clientKey r) (rateLimitMap s))\<rparr>)"
  using assms
  by (cases "check (arrival r) (clientKey r) (rateLimitMap s)") (simp add: dispatch_def Let_def)

lemma serve_snd:
  "snd (serve parse key_of evaluate (r # rs) s)
     = snd (serve parse key_of evaluate rs (snd (dispatch parse key_of evaluate r s)))"
  by (simp split: prod.splits)

lemma serve_append:
  "serve parse key_of evaluate (xs @ ys) s
     = (fst (serve parse key_of evaluate xs s)
          @ fst (serve parse key_of evaluate ys (snd (serve parse key_of evaluate xs s))),
        snd (serve parse key_of evaluate ys (snd (serve parse key_of evaluate xs s))))"
  by (induction xs arbitrary: s) (simp_all split: prod.splits)

lemma serve_counts:
  assumes "rateLimitMap s c = Some \<lparr> windowStart = w, count = n \<rparr>"
    and "\<forall>r \<in> set rs. clientKey r = c \<longrightarrow> arrival r - w < RATE_LIMIT_WINDOW CONFIG"
  shows "rateLimitMap (snd (serve parse key_of evaluate rs s)) c
           = Some \<lparr> windowStart = w, count = n + length (filter (\<lambda>r. clientKey r = c) rs) \<rparr>"
  using assms
proof (induction rs arbitrary: s n)
  case Nil
  then show ?case by simp
next
  case (Cons r rs)
  let ?s = "snd (dispatch parse key_of evaluate r s)"
  have step: "rateLimitMap ?s c
                = Some \<lparr> windowStart = w, count = (if clientKey r = c then n + 1 else n) \<rparr>"
  proof (cases "clientKey r = c")
    case True
    with Cons.prems have "arrival r - w < RATE_LIMIT_WINDOW CONFIG" by simp
    with True Cons.prems(1) show ?thesis
      by (simp add: dispatch_rateLimitMap check_within)
  next
    case False
    with Cons.prems(1) show ?thesis
      by (simp add: dispatch_rateLimitMap check_other)
  qed
  have rest: "\<forall>r \<in> set rs. clientKey r = c \<longrightarrow> arrival r - w < RATE_LIMIT_WINDOW CONFIG"
    using Cons.prems(2) by simp
  have "rateLimitMap (snd (serve parse key_of evaluate rs ?s)) c
          = Some \<lparr> windowStart = w,
                   count = (if clientKey r = c then n + 1 else n)
                           + length (filter (\<lambda>r. clientKey r = c) rs) \<rparr>"
    by (rule Cons.IH[OF step rest])
  then show ?case by (subst serve_snd) auto
qed

text \<open>
  C3. A client with no record, or with one whose window has run out, sends a request
  and then, among the requests of other clients, further requests inside the window
  that the first one opened. Its request
  number \<open>RATE_LIMIT_MAX + 1\<close> gets the fixed rejection answer; the dispatcher
  then does nothing but count the query and the request (no cache lookup, no handler).
  And a request that arrives when the window has run out is let through to the rest of
  the dispatcher, with the client's record reset to a window that starts now with count 1.
\<close>

theorem rate_limit_rejects_then_resets:
  assumes "rateLimitMap s c = None
           \<or> (\<exists>old. rateLimitMap s c = Some old
                     \<and> arrival r0 - windowStart old \<ge> RATE_LIMIT_WINDOW CONFIG)"
    and "clientKey r0 = c" and "clientKey rl = c"
    and "\<forall>r \<in> set (mid @ [rl]). clientKey r = c
            \<longrightarrow> arrival r - arrival r0 < RATE_LIMIT_WINDOW CONFIG"
    and "length (filter (\<lambda>r. clientKey r = c) mid) = RATE_LIMIT_MAX CONFIG - 1"
  shows "last (fst (serve parse key_of evaluate (r0 # mid @ [rl]) s)) = rate_limit_answer
       \<and> (let s' = snd (serve parse key_of evaluate (r0 # mid) s)
          in dispatch parse key_of evaluate rl s'
               = (rate_limit_answer,
                  s'\<lparr>stats := (stats s')\<lparr>totalQueries := totalQueries (stats s') + 1\<rparr>,
                     rateLimitMap := (rateLimitMap s')
                       (c \<mapsto> \<lparr> windowStart = arrival r0,
                                count = RATE_LIMIT_MAX CONFIG + 1 \<rparr>)\<rparr>))
       \<and> (rateLimitMap t c = Some old \<and> clientKey r = c
            \<and> arrival r - windowStart old \<ge> RATE_LIMIT_WINDOW CONFIG
          \<longrightarrow> dispatch parse key_of evaluate r t
                = process parse key_of evaluate r
                    (t\<lparr>stats := (stats t)\<lparr>totalQueries := totalQueries (stats t) + 1\<rparr>,
                       rateLimitMap := (rateLimitMap t)
                         (c \<mapsto> \<lparr> windowStart = arrival r, count = 1 \<rparr>)\<rparr>)
              \<and> rateLimitMap (snd (dispatch parse key_of evaluate r t)) c
                  = Some \<lparr> windowStart = arrival r, count = 1 \<rparr>)"
proof -
  let ?s0 = "snd (dispatch parse key_of evaluate r0 s)"
  let ?s' = "snd (serve parse key_of evaluate (r0 # mid) s)"
  have s0: "rateLimitMap ?s0 c = Some \<lparr> windowStart = arrival r0, count = 1 \<rparr>"
    using assms(1)
  proof
    assume "rateLimitMap s c = None"
    with assms(2) show ?thesis
      by (simp add: dispatch_rateLimitMap check_first)
  next
    assume "\<exists>old. rateLimitMap s c = Some old
                \<and> arrival r0 - windowStart old \<ge> RATE_LIMIT_WINDOW CONFIG"
    then obtain old where "rateLimitMap s c = Some old"
      and "arrival r0 - windowStart old \<ge> RATE_LIMIT_WINDOW CONFIG"
      by blast
    with assms(2) show ?thesis
      by (simp add: dispatch_rateLimitMap check_reset)
  qed
  have in_window: "\<forall>r \<in> set mid. clientKey r = c
                      \<longrightarrow> arrival r - arrival r0 < RATE_LIMIT_WINDOW CONFIG"
    using assms(4) by simp
  have "?s' = snd (serve parse key_of evaluate mid ?s0)"
    by (rule serve_snd)
  then have "rateLimitMap ?s' c
               = Some \<lparr> windowStart = arrival r0,
                        count = 1 + length (filter (\<lambda>r. clientKey r = c) mid) \<rparr>"
    using serve_counts[OF s0 in_window] by simp
  then have full: "rateLimitMap ?s' c
               = Some \<lparr> windowStart = arrival r0, count = RATE_LIMIT_MAX CONFIG \<rparr>"
    using assms(5) by (simp add: CONFIG_def)
  have last_in: "arrival rl - arrival r0 < RATE_LIMIT_WINDOW CONFIG"
    using assms(3,4) by simp
  have chk: "check (arrival rl) (clientKey rl) (rateLimitMap ?s')
               = (Reject, (rateLimitMap ?s')
                    (c \<mapsto> \<lparr> windowStart = arrival r0, count = RATE_LIMIT_MAX CONFIG + 1 \<rparr>))"
    using check_within[of "rateLimitMap ?s'" c _ "arrival rl"] full last_in assms(3) by simp
  have rejected: "dispatch parse key_of evaluate rl ?s'
               = (rate_limit_answer,
                  ?s'\<lparr>stats := (stats ?s')\<lparr>totalQueries := totalQueries (stats ?s') + 1\<rparr>,
                     rateLimitMap := (rateLimitMap ?s')
                       (c \<mapsto> \<lparr> windowStart = arrival r0,
                                count = RATE_LIMIT_MAX CONFIG + 1 \<rparr>)\<rparr>)"
    using dispatch_rejected[of rl ?s' parse key_of evaluate] chk by simp
  have "serve parse key_of evaluate (r0 # mid @ [rl]) s
          = (fst (serve parse key_of evaluate (r0 # mid) s)
               @ fst (serve parse key_of evaluate [rl] ?s'),
             snd (serve parse key_of evaluate [rl] ?s'))"
    using serve_append[of parse key_of evaluate "r0 # mid" "[rl]" s] by simp
  then have part1: "last (fst (serve parse key_of evaluate (r0 # mid @ [rl]) s))
                      = rate_limit_answer"
    using rejected by (simp split: prod.splits)
  have part3: "rateLimitMap t c = Some old \<and> clientKey r = c
            \<and> arrival r - windowStart old \<ge> RATE_LIMIT_WINDOW CONFIG
          \<longrightarrow> dispatch parse key_of evaluate r t
                = process parse key_of evaluate r
                    (t\<lparr>stats := (stats t)\<lparr>totalQueries := totalQueries (stats t) + 1\<rparr>,
                       rateLimitMap := (rateLimitMap t)
                         (c \<mapsto> \<lparr> windowStart = arrival r, count = 1 \<rparr>)\<rparr>)
              \<and> rateLimitMap (snd (dispatch parse key_of evaluate r t)) c
                  = Some \<lparr> windowStart = arrival r, count = 1 \<rparr>"
  proof (intro impI, elim conjE)
    assume a: "rateLimitMap t c = Some old" "clientKey r = c"
      "arrival r - windowStart old \<ge> RATE_LIMIT_WINDOW CONFIG"
    have c: "check (arrival r) (clientKey r) (rateLimitMap t)
               = (Allow, (rateLimitMap t)(c \<mapsto> \<lparr> windowStart = arrival r, count = 1 \<rparr>))"
      using check_reset[of "rateLimitMap t" c old "arrival r"] a by simp
    show "dispatch parse key_of evaluate r t
                = process parse key_of evaluate r
                    (t\<lparr>stats := (stats t)\<lparr>totalQueries := totalQueries (stats t) + 1\<rparr>,
                       rateLimitMap := (rateLimitMap t)
                         (c \<mapsto> \<lparr> windowStart = arrival r, count = 1 \<rparr>)\<rparr>)
              \<and> rateLimitMap (snd (dispatch parse key_of evaluate r t)) c
                  = Some \<lparr> windowStart = arrival r, count = 1 \<rparr>"
      using dispatch_allowed[of r t parse key_of evaluate] c
        dispatch_rateLimitMap[of parse key_of evaluate r t]
      by simp
  qed
  from part1 rejected part3 show ?thesis
    by (simp only: Let_def)
qed

theorem rate_limit_rejects_then_resets_witness:
  "last (fst (serve (\<lambda>n. \<lparr> rawName = n, command = n, args = [] \<rparr>) command (\<lambda>e. Inr e)
          (\<lparr> arrival = 0, clientKey = js ''192.0.2.1'', qname = js ''help'', reply = (\<lambda>p. Inr None) \<rparr>
           # replicate 99 \<lparr> arrival = 1, clientKey = js ''192.0.2.1'', qname = js ''help'', reply = (\<lambda>p. Inr None) \<rparr>
           @ [\<lparr> arrival = 59999, clientKey = js ''192.0.2.1'', qname = js ''help'', reply = (\<lambda>p. Inr None) \<rparr>])
          initial_state)) = rate_limit_answer
   \<and> rateLimitMap (snd (dispatch (\<lambda>n. \<lparr> rawName = n, command = n, args = [] \<rparr>) command (\<lambda>e. Inr e)
          \<lparr> arrival = 60000, clientKey = js ''192.0.2.1'', qname = js ''help'', reply = (\<lambda>p. Inr None) \<rparr>
          (initial_state\<lparr>rateLimitMap := [js ''192.0.2.1'' \<mapsto> \<lparr> windowStart = 0, count = 101 \<rparr>]\<rparr>)))
        (js ''192.0.2.1'')
      = Some \<lparr> windowStart = 60000, count = 1 \<rparr>"
proof -
  let ?c = "js ''192.0.2.1''"
  let ?first = "\<lparr> arrival = 0, clientKey = ?c, qname = js ''help'', reply = (\<lambda>p. Inr None) \<rparr>"
  let ?middle = "\<lparr> arrival = 1, clientKey = ?c, qname = js ''help'', reply = (\<lambda>p. Inr None) \<rparr>"
  let ?final = "\<lparr> arrival = 59999, clientKey = ?c, qname = js ''help'', reply = (\<lambda>p. Inr None) \<rparr>"
  let ?later = "\<lparr> arrival = 60000, clientKey = ?c, qname = js ''help'', reply = (\<lambda>p. Inr None) \<rparr>"
  let ?old = "\<lparr> windowStart = 0, count = 101 \<rparr>"
  let ?t = "initial_state\<lparr>rateLimitMap := [?c \<mapsto> ?old]\<rparr>"
  have h1: "rateLimitMap initial_state ?c = None
            \<or> (\<exists>old. rateLimitMap initial_state ?c = Some old
                      \<and> arrival ?first - windowStart old \<ge> RATE_LIMIT_WINDOW CONFIG)"
    by (simp add: initial_state_def)
  have h2: "clientKey ?first = ?c" and h3: "clientKey ?final = ?c"
    by simp_all
  have h4: "\<forall>r \<in> set (replicate 99 ?middle @ [?final]). clientKey r = ?c
              \<longrightarrow> arrival r - arrival ?first < RATE_LIMIT_WINDOW CONFIG"
    by (simp add: CONFIG_def)
  have h5: "length (filter (\<lambda>r. clientKey r = ?c) (replicate 99 ?middle)) = RATE_LIMIT_MAX CONFIG - 1"
    by (simp add: CONFIG_def)
  have h6: "rateLimitMap ?t ?c = Some ?old \<and> clientKey ?later = ?c
              \<and> arrival ?later - windowStart ?old \<ge> RATE_LIMIT_WINDOW CONFIG"
    by (simp add: CONFIG_def)
  from rate_limit_rejects_then_resets
         [where t = ?t and old = ?old and r = ?later and parse = "\<lambda>n. \<lparr> rawName = n, command = n, args = [] \<rparr>"
            and key_of = command and evaluate = "\<lambda>e. Inr e", OF h1 h2 h3 h4 h5] h6
  have "last (fst (serve (\<lambda>n. \<lparr> rawName = n, command = n, args = [] \<rparr>) command (\<lambda>e. Inr e) (?first # replicate 99 ?middle @ [?final]) initial_state))
          = rate_limit_answer
      \<and> rateLimitMap (snd (dispatch (\<lambda>n. \<lparr> rawName = n, command = n, args = [] \<rparr>) command (\<lambda>e. Inr e) ?later ?t)) ?c
          = Some \<lparr> windowStart = arrival ?later, count = 1 \<rparr>"
    by blast
  then show ?thesis
    by (simp del: serve.simps)
qed

section \<open>The response cache\<close>

lemma callAI_fails_iff:
  "isl (fst (callAI be prompt category s))
     = (case be prompt of
          Inl error \<Rightarrow> True
        | Inr text \<Rightarrow> length (text_or_default text) > MAX_RESPONSE_LENGTH CONFIG)"
  by (simp add: callAI_def Let_def split: sum.splits)

lemma registry_fails_same:
  assumes "handlers nm = Some h"
  shows "isl (fst (h ev be q s)) = isl (fst (h ev be q s'))"
  using registry_cases[OF assms]
  by (auto simp add: callAI_fails_iff Let_def
        handlers_calc_def handlers_unit_def handlers_stats_def handlers_help_def
        handlers_translate_def handlers_code_def handlers_timezone_def handlers_convert_def
        handlers_spell_def handlers_onthisday_def handlers_acronym_def handlers_tip_def
        handlers_weather_def handlers_fact_def handlers_define_def
        split: sum.splits)

lemma invoke_fails_same:
  "isl (fst (invoke ev be q s)) = isl (fst (invoke ev be q s'))"
proof (cases "handlers (command q)")
  case None
  then show ?thesis by (simp add: invoke_def handlers_help_def)
next
  case (Some h)
  with registry_fails_same[OF Some] show ?thesis by (simp add: invoke_def)
qed

lemma truncated_fields:
  "cached (truncated a) = cached a"
  "handler (truncated a) = handler a"
  "answer (truncated (a\<lparr>cached := b\<rparr>)) = answer (truncated a)"
  by (simp_all add: truncated_def)

lemma process_hit:
  assumes "cache_get (arrival r) (key_of (parse (qname r))) s = Some a"
  shows "process parse key_of evaluate r s
           = (truncated (a\<lparr>cached := True\<rparr>),
              s\<lparr>stats := (stats s)\<lparr>cacheHits := cacheHits (stats s) + 1\<rparr>\<rparr>)"
  using assms by (simp add: process_def Let_def)

lemma process_miss:
  assumes "cache_get (arrival r) (key_of (parse (qname r))) s = None"
    and "invoke evaluate (reply r) (parse (qname r))
           (s\<lparr>stats := (stats s)\<lparr>cacheMisses := cacheMisses (stats s) + 1\<rparr>\<rparr>) = (Inr a, s')"
  shows "process parse key_of evaluate r s
           = (truncated a, cache_set (arrival r) (key_of (parse (qname r))) a s')"
  using assms by (simp add: process_def Let_def)

lemma process_failure:
  assumes "cache_get (arrival r) (key_of (parse (qname r))) s = None"
    and "invoke evaluate (reply r) (parse (qname r))
           (s\<lparr>stats := (stats s)\<lparr>cacheMisses := cacheMisses (stats s) + 1\<rparr>\<rparr>) = (Inl e, s')"
  shows "process parse key_of evaluate r s = (truncated unavailable_answer, count_error s')"
  using assms by (simp add: process_def Let_def)

lemma parse_fact: "labels_parse (js ''fact.moon'') = \<lparr> rawName = js ''fact.moon'', command = js ''fact'', args = [js ''moon''] \<rparr>"
  by (simp add: labels_parse_def js_def dot_def)

lemma fact_handler: "handlers (js ''fact'') = Some handlers_fact"
  by (simp add: handlers_def js_def)

lemma fact_fails:
  "invoke sample_evaluator backend_down
     \<lparr> rawName = js ''fact.moon'', command = js ''fact'', args = [js ''moon''] \<rparr> s
   = (Inl (JsError (js ''Error'') (js ''fetch failed'')), count_error s)"
  by (simp add: invoke_def fact_handler handlers_fact_def callAI_def backend_down_def)

lemma unavailable_bytes: "utf8_length (js ''temporarily unavailable'') = 23"
  by (simp add: js_def unit_bytes_def high_surrogate_def low_surrogate_def)

lemma unavailable_fits: "truncated unavailable_answer = unavailable_answer"
  by (simp add: truncated_def unavailable_answer_def CONFIG_def unavailable_bytes)

lemma first_failed:
  "dispatch labels_parse labels_key sample_evaluator (request_at 0 (js ''fact.moon'') backend_down)
     initial_state
   = (unavailable_answer,
      \<lparr> stats = \<lparr> totalQueries = 1, cacheHits = 0, cacheMisses = 1, errors = 2,
                  byCategory = Map.empty \<rparr>,
        cache = Map.empty,
        rateLimitMap = [js ''192.0.2.1'' \<mapsto> \<lparr> windowStart = 0, count = 1 \<rparr>] \<rparr>)"
  by (simp add: dispatch_def process_def check_def cache_get_def request_at_def initial_state_def
        parse_fact fact_fails count_error_def unavailable_fits CONFIG_def)

text \<open>
  The specification has every query answered from the cache the second time. A query
  whose handler fails is not: the dispatcher stores nothing for it, so the same query,
  one second later and with the backend still down, misses the cache again and its
  answer is not marked as cached.
\<close>

theorem failed_query_is_not_cached:
  "cached (fst (dispatch labels_parse labels_key sample_evaluator
                 (request_at 1000 (js ''fact.moon'') backend_down)
                 (snd (dispatch labels_parse labels_key sample_evaluator
                        (request_at 0 (js ''fact.moon'') backend_down) initial_state))))
     = False
   \<and> cache (snd (dispatch labels_parse labels_key sample_evaluator
                   (request_at 0 (js ''fact.moon'') backend_down) initial_state))
        (labels_key (labels_parse (js ''fact.moon''))) = None"
  by (simp add: first_failed)
     (simp add: dispatch_def process_def check_def cache_get_def request_at_def
        parse_fact fact_fails count_error_def unavailable_fits CONFIG_def,
      simp add: unavailable_answer_def)

lemma process_cache_hit_unchanged:
  assumes "cache_get (arrival r) (key_of (parse (qname r))) s = Some a"
  shows "cache (snd (process parse key_of evaluate r s)) = cache s"
  using assms by (simp add: process_def Let_def)

lemma process_keeps_entry:
  assumes entry: "cache s k = Some e"
    and other: "key_of (parse (qname r)) \<noteq> k \<or> arrival r < insertedAt e + 1000 * ttl e"
  shows "cache (snd (process parse key_of evaluate r s)) k = Some e"
proof (cases "cache_get (arrival r) (key_of (parse (qname r))) s")
  case (Some a)
  with entry show ?thesis by (simp add: process_def Let_def)
next
  case None
  have differs: "key_of (parse (qname r)) \<noteq> k"
  proof
    assume same: "key_of (parse (qname r)) = k"
    with other have "arrival r < insertedAt e + 1000 * ttl e" by simp
    with entry same have "cache_get (arrival r) (key_of (parse (qname r))) s = Some (stored e)"
      by (simp add: cache_get_def)
    with None show False by simp
  qed
  let ?sm = "s\<lparr>stats := (stats s)\<lparr>cacheMisses := cacheMisses (stats s) + 1\<rparr>\<rparr>"
  have kept: "cache (snd (invoke evaluate (reply r) (parse (qname r)) ?sm)) = cache s"
    by (simp add: invoke_cache)
  obtain res s' where inv: "invoke evaluate (reply r) (parse (qname r)) ?sm = (res, s')"
    by (cases "invoke evaluate (reply r) (parse (qname r)) ?sm")
  with kept have "cache s' = cache s" by simp
  with None inv entry differs show ?thesis
    by (cases res) (simp_all add: process_def Let_def cache_set_def count_error_def)
qed

lemma dispatch_keeps_entry:
  assumes "cache s k = Some e"
    and "key_of (parse (qname r)) \<noteq> k \<or> arrival r < insertedAt e + 1000 * ttl e"
  shows "cache (snd (dispatch parse key_of evaluate r s)) k = Some e"
proof (cases "fst (check (arrival r) (clientKey r) (rateLimitMap s))")
  case Allow
  let ?sa = "s\<lparr>stats := (stats s)\<lparr>totalQueries := totalQueries (stats s) + 1\<rparr>,
               rateLimitMap := snd (check (arrival r) (clientKey r) (rateLimitMap s))\<rparr>"
  have "cache ?sa k = Some e" using assms(1) by simp
  then have "cache (snd (process parse key_of evaluate r ?sa)) k = Some e"
    using assms(2) by (rule process_keeps_entry)
  then show ?thesis by (simp add: dispatch_allowed[OF Allow])
next
  case Reject
  with assms(1) show ?thesis by (simp add: dispatch_rejected[OF Reject])
qed

lemma serve_keeps_entry:
  assumes "cache s k = Some e"
    and "\<forall>r \<in> set rs. key_of (parse (qname r)) \<noteq> k \<or> arrival r < insertedAt e + 1000 * ttl e"
  shows "cache (snd (serve parse key_of evaluate rs s)) k = Some e"
  using assms
proof (induction rs arbitrary: s)
  case Nil
  then show ?case by simp
next
  case (Cons r rs)
  have "cache (snd (dispatch parse key_of evaluate r s)) k = Some e"
    using Cons.prems by (intro dispatch_keeps_entry) simp_all
  moreover have "\<forall>r \<in> set rs. key_of (parse (qname r)) \<noteq> k
                    \<or> arrival r < insertedAt e + 1000 * ttl e"
    using Cons.prems(2) by simp
  ultimately have "cache (snd (serve parse key_of evaluate rs
                                 (snd (dispatch parse key_of evaluate r s)))) k = Some e"
    by (rule Cons.IH)
  then show ?case by (subst serve_snd)
qed

lemma dispatch_cached_only_on_hit:
  assumes "cache_get (arrival r) (key_of (parse (qname r))) s = None"
  shows "cached (fst (dispatch parse key_of evaluate r s)) = False"
proof (cases "fst (check (arrival r) (clientKey r) (rateLimitMap s))")
  case Allow
  let ?sa = "s\<lparr>stats := (stats s)\<lparr>totalQueries := totalQueries (stats s) + 1\<rparr>,
               rateLimitMap := snd (check (arrival r) (clientKey r) (rateLimitMap s))\<rparr>"
  let ?sm = "?sa\<lparr>stats := (stats ?sa)\<lparr>cacheMisses := cacheMisses (stats ?sa) + 1\<rparr>\<rparr>"
  have miss: "cache_get (arrival r) (key_of (parse (qname r))) ?sa = None"
    using assms by (simp add: cache_get_def)
  obtain res s' where inv: "invoke evaluate (reply r) (parse (qname r)) ?sm = (res, s')"
    by (cases "invoke evaluate (reply r) (parse (qname r)) ?sm")
  show ?thesis
  proof (cases res)
    case (Inl error)
    with inv miss have "process parse key_of evaluate r ?sa
                          = (truncated unavailable_answer, count_error s')"
      by (simp add: process_def Let_def)
    then show ?thesis
      by (simp add: dispatch_allowed[OF Allow] truncated_fields unavailable_answer_def)
  next
    case (Inr a)
    with inv have "cached a = False"
      using invoke_not_cached[of evaluate "reply r" "parse (qname r)" ?sm a] by simp
    moreover from Inr inv miss have "process parse key_of evaluate r ?sa
                          = (truncated a, cache_set (arrival r) (key_of (parse (qname r))) a s')"
      by (simp add: process_def Let_def)
    ultimately show ?thesis
      by (simp add: dispatch_allowed[OF Allow] truncated_fields)
  qed
next
  case Reject
  then show ?thesis by (simp add: dispatch_rejected[OF Reject] rate_limit_answer_def)
qed

lemma dispatch_failure_stores_nothing:
  assumes allowed: "fst (check (arrival r) (clientKey r) (rateLimitMap s)) = Allow"
    and miss: "cache_get (arrival r) (key_of (parse (qname r))) s = None"
    and failure: "isl (fst (invoke evaluate (reply r) (parse (qname r)) s))"
  shows "cache (snd (dispatch parse key_of evaluate r s)) = cache s"
proof -
  let ?sa = "s\<lparr>stats := (stats s)\<lparr>totalQueries := totalQueries (stats s) + 1\<rparr>,
               rateLimitMap := snd (check (arrival r) (clientKey r) (rateLimitMap s))\<rparr>"
  let ?sm = "?sa\<lparr>stats := (stats ?sa)\<lparr>cacheMisses := cacheMisses (stats ?sa) + 1\<rparr>\<rparr>"
  have miss_a: "cache_get (arrival r) (key_of (parse (qname r))) ?sa = None"
    using miss by (simp add: cache_get_def)
  have "isl (fst (invoke evaluate (reply r) (parse (qname r)) ?sm))"
    using failure invoke_fails_same[of evaluate "reply r" "parse (qname r)" s ?sm] by simp
  then obtain e s' where inv: "invoke evaluate (reply r) (parse (qname r)) ?sm = (Inl e, s')"
    by (cases "invoke evaluate (reply r) (parse (qname r)) ?sm";
        cases "fst (invoke evaluate (reply r) (parse (qname r)) ?sm)") auto
  have "cache s' = cache s"
    using invoke_cache[of evaluate "reply r" "parse (qname r)" ?sm] inv by simp
  moreover have "process parse key_of evaluate r ?sa
                   = (truncated unavailable_answer, count_error s')"
    using miss_a inv by (simp add: process_def Let_def)
  ultimately show ?thesis
    by (simp add: dispatch_allowed[OF allowed] count_error_def)
qed

lemma cache_get_later:
  assumes "cache_get now k s = None" and "now \<le> later" and "cache s' = cache s"
  shows "cache_get later k s' = None"
  using assms by (auto simp add: cache_get_def split: option.splits if_splits)

text \<open>
  C4, as the dispatcher has it. Take a query that the rate limiter lets through and that
  has no live cache entry. If its handler returns an answer, that answer is not marked as
  cached; and when, after it and after any further queries (those with the same key
  arriving before the time to live has run out), a query with the same key arrives before
  the time to live has run out and is let through as well, then the answer to that one is
  marked as cached and has the same text and the same handler name, and the cache is left
  exactly as it was found. If the handler of the first query fails, the dispatcher stores
  nothing: the cache is as before, and the same query dispatched next, at the same time or
  later, is answered without the mark again.
\<close>

theorem repeated_query_is_served_from_cache:
  assumes allowed1: "fst (check (arrival r1) (clientKey r1) (rateLimitMap s)) = Allow"
    and miss: "cache_get (arrival r1) (key_of (parse (qname r1))) s = None"
    and same: "key_of (parse (qname r2)) = key_of (parse (qname r1))"
    and between: "\<forall>r \<in> set mid. key_of (parse (qname r)) \<noteq> key_of (parse (qname r1))
                     \<or> arrival r < arrival r1 + 1000 * CACHE_TTL CONFIG"
  shows "(\<not> isl (fst (invoke evaluate (reply r1) (parse (qname r1)) s))
          \<and> arrival r2 < arrival r1 + 1000 * CACHE_TTL CONFIG
          \<and> fst (check (arrival r2) (clientKey r2)
                   (rateLimitMap (snd (serve parse key_of evaluate (r1 # mid) s)))) = Allow
         \<longrightarrow> cached (fst (dispatch parse key_of evaluate r1 s)) = False
           \<and> cached (fst (dispatch parse key_of evaluate r2
                            (snd (serve parse key_of evaluate (r1 # mid) s)))) = True
           \<and> answer (fst (dispatch parse key_of evaluate r2
                            (snd (serve parse key_of evaluate (r1 # mid) s))))
               = answer (fst (dispatch parse key_of evaluate r1 s))
           \<and> handler (fst (dispatch parse key_of evaluate r2
                            (snd (serve parse key_of evaluate (r1 # mid) s))))
               = handler (fst (dispatch parse key_of evaluate r1 s))
           \<and> cache (snd (dispatch parse key_of evaluate r2
                            (snd (serve parse key_of evaluate (r1 # mid) s))))
               = cache (snd (serve parse key_of evaluate (r1 # mid) s)))
       \<and> (isl (fst (invoke evaluate (reply r1) (parse (qname r1)) s))
          \<and> arrival r1 \<le> arrival r2
         \<longrightarrow> cache (snd (dispatch parse key_of evaluate r1 s)) = cache s
           \<and> cached (fst (dispatch parse key_of evaluate r1 s)) = False
           \<and> cached (fst (dispatch parse key_of evaluate r2
                            (snd (dispatch parse key_of evaluate r1 s)))) = False)"
proof -
  let ?key = "key_of (parse (qname r1))"
  let ?s1 = "snd (dispatch parse key_of evaluate r1 s)"
  let ?sm = "snd (serve parse key_of evaluate (r1 # mid) s)"
  have unmarked: "cached (fst (dispatch parse key_of evaluate r1 s)) = False"
    using miss by (rule dispatch_cached_only_on_hit[where parse = parse and key_of = key_of])
  have failure: "cache ?s1 = cache s
           \<and> cached (fst (dispatch parse key_of evaluate r1 s)) = False
           \<and> cached (fst (dispatch parse key_of evaluate r2 ?s1)) = False"
    if failed: "isl (fst (invoke evaluate (reply r1) (parse (qname r1)) s))
                  \<and> arrival r1 \<le> arrival r2"
  proof -
    have not_stored: "cache ?s1 = cache s"
      using allowed1 miss failed
      by (intro dispatch_failure_stores_nothing[where parse = parse and key_of = key_of])
         simp_all
    have "cache_get (arrival r2) ?key ?s1 = None"
    proof (rule cache_get_later[where now = "arrival r1" and s = s])
      show "cache_get (arrival r1) ?key s = None" by (rule miss)
      show "arrival r1 \<le> arrival r2" using failed by simp
      show "cache ?s1 = cache s" by (fact not_stored)
    qed
    then have "cache_get (arrival r2) (key_of (parse (qname r2))) ?s1 = None"
      by (simp only: same)
    then have "cached (fst (dispatch parse key_of evaluate r2 ?s1)) = False"
      by (rule dispatch_cached_only_on_hit[where parse = parse and key_of = key_of])
    with not_stored unmarked show ?thesis by blast
  qed
  have success: "cached (fst (dispatch parse key_of evaluate r1 s)) = False
           \<and> cached (fst (dispatch parse key_of evaluate r2 ?sm)) = True
           \<and> answer (fst (dispatch parse key_of evaluate r2 ?sm))
               = answer (fst (dispatch parse key_of evaluate r1 s))
           \<and> handler (fst (dispatch parse key_of evaluate r2 ?sm))
               = handler (fst (dispatch parse key_of evaluate r1 s))
           \<and> cache (snd (dispatch parse key_of evaluate r2 ?sm)) = cache ?sm"
    if succeeded: "\<not> isl (fst (invoke evaluate (reply r1) (parse (qname r1)) s))
          \<and> arrival r2 < arrival r1 + 1000 * CACHE_TTL CONFIG
          \<and> fst (check (arrival r2) (clientKey r2) (rateLimitMap ?sm)) = Allow"
  proof -
    let ?sa = "s\<lparr>stats := (stats s)\<lparr>totalQueries := totalQueries (stats s) + 1\<rparr>,
                 rateLimitMap := snd (check (arrival r1) (clientKey r1) (rateLimitMap s))\<rparr>"
    let ?sn = "?sa\<lparr>stats := (stats ?sa)\<lparr>cacheMisses := cacheMisses (stats ?sa) + 1\<rparr>\<rparr>"
    have d1: "dispatch parse key_of evaluate r1 s = process parse key_of evaluate r1 ?sa"
      by (rule dispatch_allowed[OF allowed1])
    have miss_a: "cache_get (arrival r1) ?key ?sa = None"
      using miss by (simp add: cache_get_def)
    have "\<not> isl (fst (invoke evaluate (reply r1) (parse (qname r1)) ?sn))"
      using succeeded invoke_fails_same[of evaluate "reply r1" "parse (qname r1)" s ?sn]
      by simp
    then obtain a s' where
      inv: "invoke evaluate (reply r1) (parse (qname r1)) ?sn = (Inr a, s')"
      by (cases "invoke evaluate (reply r1) (parse (qname r1)) ?sn";
          cases "fst (invoke evaluate (reply r1) (parse (qname r1)) ?sn)") auto
    have first: "dispatch parse key_of evaluate r1 s
                   = (truncated a, cache_set (arrival r1) ?key a s')"
      using d1 process_miss[where parse = parse and key_of = key_of and r = r1, OF miss_a inv]
      by simp
    let ?e = "\<lparr> stored = a, insertedAt = arrival r1, ttl = CACHE_TTL CONFIG \<rparr>"
    have "cache ?s1 ?key = Some ?e"
      by (simp add: first cache_set_def)
    moreover have "\<forall>r \<in> set mid. key_of (parse (qname r)) \<noteq> ?key
                       \<or> arrival r < insertedAt ?e + 1000 * ttl ?e"
      using between by simp
    ultimately have "cache (snd (serve parse key_of evaluate mid ?s1)) ?key = Some ?e"
      by (rule serve_keeps_entry[where parse = parse and key_of = key_of])
    then have entry: "cache ?sm ?key = Some ?e"
      by (simp only: serve_snd)
    let ?sb = "?sm\<lparr>stats := (stats ?sm)\<lparr>totalQueries := totalQueries (stats ?sm) + 1\<rparr>,
                 rateLimitMap := snd (check (arrival r2) (clientKey r2) (rateLimitMap ?sm))\<rparr>"
    have allowed2: "fst (check (arrival r2) (clientKey r2) (rateLimitMap ?sm)) = Allow"
      using succeeded by simp
    have d2: "dispatch parse key_of evaluate r2 ?sm = process parse key_of evaluate r2 ?sb"
      by (rule dispatch_allowed[OF allowed2])
    have hit: "cache_get (arrival r2) (key_of (parse (qname r2))) ?sb = Some a"
      using succeeded same entry by (simp add: cache_get_def)
    have second: "dispatch parse key_of evaluate r2 ?sm
                    = (truncated (a\<lparr>cached := True\<rparr>),
                       ?sb\<lparr>stats := (stats ?sb)\<lparr>cacheHits := cacheHits (stats ?sb) + 1\<rparr>\<rparr>)"
      using d2 process_hit[where parse = parse and key_of = key_of and r = r2
                             and evaluate = evaluate, OF hit] by simp
    have "cached (fst (dispatch parse key_of evaluate r2 ?sm)) = True"
      by (simp add: second truncated_fields del: serve.simps)
    moreover have "answer (fst (dispatch parse key_of evaluate r2 ?sm))
            = answer (fst (dispatch parse key_of evaluate r1 s))"
      by (simp add: second first truncated_fields del: serve.simps)
    moreover have "handler (fst (dispatch parse key_of evaluate r2 ?sm))
            = handler (fst (dispatch parse key_of evaluate r1 s))"
      by (simp add: second first truncated_fields del: serve.simps)
    moreover have "cache (snd (dispatch parse key_of evaluate r2 ?sm)) = cache ?sm"
      by (simp add: second del: serve.simps)
    ultimately show ?thesis using unmarked by blast
  qed
  from success failure show ?thesis by blast
qed

theorem repeated_query_is_served_from_cache_witness:
  "cached (fst (dispatch labels_parse labels_key sample_evaluator
                  (request_at 1000 (js ''calc.2.+.2'') backend_down)
                  (snd (serve labels_parse labels_key sample_evaluator
                         [request_at 0 (js ''calc.2.+.2'') backend_down,
                          request_at 500 (js ''help'') backend_down] initial_state)))) = True
   \<and> answer (fst (dispatch labels_parse labels_key sample_evaluator
                  (request_at 1000 (js ''calc.2.+.2'') backend_down)
                  (snd (serve labels_parse labels_key sample_evaluator
                         [request_at 0 (js ''calc.2.+.2'') backend_down,
                          request_at 500 (js ''help'') backend_down] initial_state))))
       = answer (fst (dispatch labels_parse labels_key sample_evaluator
                  (request_at 0 (js ''calc.2.+.2'') backend_down) initial_state))
   \<and> cache (snd (dispatch labels_parse labels_key sample_evaluator
                  (request_at 0 (js ''fact.moon'') backend_down) initial_state))
       = cache initial_state
   \<and> cached (fst (dispatch labels_parse labels_key sample_evaluator
                  (request_at 1000 (js ''fact.moon'') backend_down)
                  (snd (dispatch labels_parse labels_key sample_evaluator
                         (request_at 0 (js ''fact.moon'') backend_down) initial_state))))
       = False"
proof -
  let ?first = "request_at 0 (js ''calc.2.+.2'') backend_down"
  let ?other = "request_at 500 (js ''help'') backend_down"
  let ?second = "request_at 1000 (js ''calc.2.+.2'') backend_down"
  let ?failing = "request_at 0 (js ''fact.moon'') backend_down"
  let ?again = "request_at 1000 (js ''fact.moon'') backend_down"
  let ?c = "js ''192.0.2.1''"
  have parsed: "labels_parse (js ''calc.2.+.2'')
                  = \<lparr> rawName = js ''calc.2.+.2'', command = js ''calc'',
                      args = [js ''2'', js ''+'', js ''2''] \<rparr>"
    by (simp add: labels_parse_def js_def dot_def)
  have registered: "handlers (js ''calc'') = Some handlers_calc"
    by (simp add: handlers_def js_def)
  have a1: "fst (check (arrival ?first) (clientKey ?first) (rateLimitMap initial_state)) = Allow"
    by (simp add: check_def initial_state_def)
  have a2: "cache_get (arrival ?first) (labels_key (labels_parse (qname ?first))) initial_state
              = None"
    by (simp add: cache_get_def initial_state_def)
  have a3: "labels_key (labels_parse (qname ?second)) = labels_key (labels_parse (qname ?first))"
    by (simp add: request_at_def)
  have a4: "\<forall>r \<in> set [?other]. labels_key (labels_parse (qname r))
                 \<noteq> labels_key (labels_parse (qname ?first))
               \<or> arrival r < arrival ?first + 1000 * CACHE_TTL CONFIG"
    by (simp add: request_at_def CONFIG_def)
  have h1: "\<not> isl (fst (invoke sample_evaluator (reply ?first) (labels_parse (qname ?first))
                          initial_state))"
    by (simp add: request_at_def parsed invoke_def registered handlers_calc_def
             split: sum.splits)
  have h2: "arrival ?second < arrival ?first + 1000 * CACHE_TTL CONFIG"
    by (simp add: request_at_def CONFIG_def)
  have opened: "rateLimitMap (snd (dispatch labels_parse labels_key sample_evaluator ?first
                                     initial_state)) ?c
                  = Some \<lparr> windowStart = 0, count = 1 \<rparr>"
    by (simp add: dispatch_rateLimitMap)
       (simp add: check_def initial_state_def request_at_def)
  have "rateLimitMap (snd (serve labels_parse labels_key sample_evaluator [?other]
                              (snd (dispatch labels_parse labels_key sample_evaluator ?first
                                      initial_state)))) ?c
          = Some \<lparr> windowStart = 0,
                   count = 1 + length (filter (\<lambda>r. clientKey r = ?c) [?other]) \<rparr>"
    using opened by (rule serve_counts) (simp add: request_at_def CONFIG_def)
  then have counted: "rateLimitMap (snd (serve labels_parse labels_key sample_evaluator
                                           [?first, ?other] initial_state)) ?c
                        = Some \<lparr> windowStart = 0, count = 2 \<rparr>"
    by (simp only: serve_snd) (simp add: request_at_def)
  have h3: "fst (check (arrival ?second) (clientKey ?second)
                   (rateLimitMap (snd (serve labels_parse labels_key sample_evaluator
                                         [?first, ?other] initial_state)))) = Allow"
    using check_within[of "rateLimitMap (snd (serve labels_parse labels_key sample_evaluator
                                         [?first, ?other] initial_state))" ?c
                          "\<lparr> windowStart = 0, count = 2 \<rparr>" 1000] counted
    by (simp add: request_at_def CONFIG_def del: serve.simps)
  have b1: "fst (check (arrival ?failing) (clientKey ?failing) (rateLimitMap initial_state))
              = Allow"
    by (simp add: check_def initial_state_def)
  have b2: "cache_get (arrival ?failing) (labels_key (labels_parse (qname ?failing)))
              initial_state = None"
    by (simp add: cache_get_def initial_state_def)
  have b3: "labels_key (labels_parse (qname ?again))
              = labels_key (labels_parse (qname ?failing))"
    by (simp add: request_at_def)
  have b4: "\<forall>r \<in> set []. labels_key (labels_parse (qname r))
                 \<noteq> labels_key (labels_parse (qname ?failing))
               \<or> arrival r < arrival ?failing + 1000 * CACHE_TTL CONFIG"
    by simp
  have g1: "isl (fst (invoke sample_evaluator (reply ?failing) (labels_parse (qname ?failing))
                       initial_state))"
    by (simp add: request_at_def parse_fact fact_fails)
  have g2: "arrival ?failing \<le> arrival ?again"
    by (simp add: request_at_def)
  from repeated_query_is_served_from_cache
         [where evaluate = sample_evaluator and ?r2.0 = ?second, OF a1 a2 a3 a4] h1 h2 h3
  have served: "cached (fst (dispatch labels_parse labels_key sample_evaluator ?second
                  (snd (serve labels_parse labels_key sample_evaluator [?first, ?other]
                         initial_state)))) = True
      \<and> answer (fst (dispatch labels_parse labels_key sample_evaluator ?second
                  (snd (serve labels_parse labels_key sample_evaluator [?first, ?other]
                         initial_state))))
          = answer (fst (dispatch labels_parse labels_key sample_evaluator ?first initial_state))"
    by blast
  from repeated_query_is_served_from_cache
         [where evaluate = sample_evaluator and ?r2.0 = ?again, OF b1 b2 b3 b4] g1 g2
  have "cache (snd (dispatch labels_parse labels_key sample_evaluator ?failing initial_state))
          = cache initial_state
      \<and> cached (fst (dispatch labels_parse labels_key sample_evaluator ?again
                  (snd (dispatch labels_parse labels_key sample_evaluator ?failing
                         initial_state)))) = False"
    by blast
  with served show ?thesis by blast
qed

end
